theory Spec2Isabelle
  imports Complex_Main
begin

section \<open>Data model of the sync engine (src/network/sync/syncEngine.ts)\<close>

text \<open>
  A thrown JavaScript value, that is, the reason of a rejected promise. An awaited call
  either is rejected (\<open>Inl\<close>) or resolves to a value (\<open>Inr\<close>).
\<close>

datatype exn = Thrown string

type_synonym 'a Promise = "exn + 'a"

text \<open>
  \<open>HubError\<close> as syncEngine.ts builds it: an error code and a context, which is a text or
  the error it wraps. \<open>EngineError\<close> is the error of a storage merge; the source reads
  its \<open>statusCode\<close> only. A neverthrow \<open>Result\<close> is a sum: \<open>Inl\<close> is \<open>err\<close>,
  \<open>Inr\<close> is \<open>ok\<close>.
\<close>

datatype EngineError = EngineError (statusCode: int) (reason: string)

datatype err_context = Text string | Cause EngineError

datatype HubError = HubError (errCode: string) (err_context: err_context)

type_synonym 'a HubResult = "HubError + 'a"

type_synonym MergeResult = "EngineError + unit"

datatype MessageData = MessageData (fid: nat)

record Message =
  data :: MessageData
  hash :: string

datatype IdRegistryEvent = IdRegistryEvent nat string

text \<open>
  \<open>NodeMetadata\<close>: the children are a JavaScript \<open>Map\<close>, kept as an association list in
  insertion order (the order \<open>entries()\<close> iterates in); \<open>children\<close> may be undefined.
\<close>

datatype NodeMetadata =
  NodeMetadata (prefix: string) (numMessages: int) (node_hash: string)
    (children: "(string \<times> NodeMetadata) list option")

record TrieSnapshot =
  snapshot_prefix :: string
  snapshot_numMessages :: int
  excludedHashes :: "string list"

subsection \<open>The history of calls\<close>

datatype level = Debug | Info | Warn

datatype field = Str string | Num int

datatype payload = NoPayload | Caught exn | Failure HubError | Fields "(string \<times> field) list"

text \<open>
  One event per call the engine makes on a collaborator, with the arguments and with what
  the call settled to, one per log line, and one on entering the private method
  \<open>syncUserAndRetryMessage\<close>, with the message it was given.
\<close>

datatype event =
    GetSyncMetadataByPrefix string "NodeMetadata HubResult Promise"
  | GetSyncIdsByPrefix string "string list HubResult Promise"
  | GetMessagesByHashes "string list" "Message list HubResult Promise"
  | GetCustodyEventByUser nat "IdRegistryEvent HubResult Promise"
  | GetAllSignerMessagesByUser nat "Message list HubResult Promise"
  | MergeMessage Message string "MergeResult Promise"
  | MergeMessages "Message list" string "MergeResult list Promise"
  | MergeIdRegistryEvent IdRegistryEvent string "MergeResult Promise"
  | Log level payload string
  | Enter string Message

text \<open>
  An entry of the history: the method of SyncEngine that made the call, the value of
  \<open>_isSyncing\<close> at that moment, and the event.
\<close>

record entry =
  caller :: string
  syncing :: bool
  ev :: event

subsection \<open>Collaborators\<close>

text \<open>
  The peer, the storage engine, the trie and the clock are not part of syncEngine.ts.
  They are parameters: functions of a world \<open>'w\<close> that holds everything outside the
  engine. An awaited call may change the world (other tasks run while the engine is
  suspended) and may be rejected. The trie is read synchronously and does not raise.
\<close>

record 'w RPCClient =
  getSyncMetadataByPrefix :: "string \<Rightarrow> 'w \<Rightarrow> NodeMetadata HubResult Promise \<times> 'w"
  getSyncIdsByPrefix :: "string \<Rightarrow> 'w \<Rightarrow> string list HubResult Promise \<times> 'w"
  getMessagesByHashes :: "string list \<Rightarrow> 'w \<Rightarrow> Message list HubResult Promise \<times> 'w"
  getCustodyEventByUser :: "nat \<Rightarrow> 'w \<Rightarrow> IdRegistryEvent HubResult Promise \<times> 'w"
  getAllSignerMessagesByUser :: "nat \<Rightarrow> 'w \<Rightarrow> Message list HubResult Promise \<times> 'w"

record 'w Engine =
  mergeMessage :: "Message \<Rightarrow> string \<Rightarrow> 'w \<Rightarrow> MergeResult Promise \<times> 'w"
  mergeMessages :: "Message list \<Rightarrow> string \<Rightarrow> 'w \<Rightarrow> MergeResult list Promise \<times> 'w"
  mergeIdRegistryEvent :: "IdRegistryEvent \<Rightarrow> string \<Rightarrow> 'w \<Rightarrow> MergeResult Promise \<times> 'w"

record 'w MerkleTrie =
  getTrieNodeMetadata :: "'w \<Rightarrow> string \<Rightarrow> NodeMetadata option"
  getSnapshot :: "'w \<Rightarrow> string \<Rightarrow> TrieSnapshot"
  getDivergencePrefix :: "'w \<Rightarrow> string \<Rightarrow> string list \<Rightarrow> string"

text \<open>
  The fields of class SyncEngine that never change, and \<open>Date.now\<close> (milliseconds since
  the UNIX epoch, an integer).
\<close>

record 'w SyncEngine =
  trie :: "'w MerkleTrie"
  engine :: "'w Engine"
  dateNow :: "'w \<Rightarrow> int"

text \<open>The state a method runs in: the flag \<open>_isSyncing\<close>, the world, the history.\<close>

record 'w state =
  isSyncing :: bool
  world :: 'w
  history :: "entry list"

definition SYNC_THRESHOLD_IN_SECONDS :: int where
  "SYNC_THRESHOLD_IN_SECONDS = 10"

definition HASHES_PER_FETCH :: int where
  "HASHES_PER_FETCH = 50"

definition record_event :: "string \<Rightarrow> event \<Rightarrow> 'w state \<Rightarrow> 'w state" where
  "record_event who e s =
     s\<lparr>history := history s @ [\<lparr>caller = who, syncing = isSyncing s, ev = e\<rparr>]\<rparr>"

definition logLine :: "string \<Rightarrow> level \<Rightarrow> payload \<Rightarrow> string \<Rightarrow> 'w state \<Rightarrow> 'w state" where
  "logLine who l p txt s = record_event who (Log l p txt) s"

text \<open>
  An awaited call on a collaborator: it runs on the world, the world it leaves replaces
  the old one, and the call is entered in the history with what it settled to.
\<close>

definition await ::
  "string \<Rightarrow> ('w \<Rightarrow> 'a Promise \<times> 'w) \<Rightarrow> ('a Promise \<Rightarrow> event) \<Rightarrow> 'w state \<Rightarrow> 'a Promise \<times> 'w state" where
  "await who call mk s =
     (case call (world s) of
        (r, w') \<Rightarrow> (r, record_event who (mk r) (s\<lparr>world := w'\<rparr>)))"

section \<open>Numbers and strings of the JavaScript runtime\<close>

definition digit :: "nat \<Rightarrow> char" where
  "digit d = char_of (48 + d)"

fun digits :: "nat \<Rightarrow> string" where
  "digits n = (if n < 10 then [digit n] else digits (n div 10) @ [digit (n mod 10)])"

declare digits.simps [simp del]

text \<open>\<open>Number.prototype.toString\<close> on an integer: decimal digits, a minus sign first.\<close>

definition toString :: "int \<Rightarrow> string" where
  "toString n = (if n < 0 then ''-'' @ digits (nat (- n)) else digits (nat n))"

text \<open>
  \<open>(n / 10).toString()\<close> for an integer \<open>n\<close>: the division of JavaScript is that of
  floating-point numbers, so the quotient of an \<open>n\<close> that 10 does not divide has one
  decimal after the point, which \<open>toString\<close> prints.
\<close>

definition div10_toString :: "int \<Rightarrow> string" where
  "div10_toString n =
     (let a = nat \<bar>n\<bar> in
        (if n < 0 then ''-'' else '''') @ digits (a div 10) @
        (if a mod 10 = 0 then '''' else ''.'' @ [digit (a mod 10)]))"

text \<open>\<open>Array.prototype.join(',')\<close>, which a template literal applies to an array.\<close>

fun join :: "string list \<Rightarrow> string" where
  "join [] = ''''"
| "join [x] = x"
| "join (x # y # ys) = x @ '','' @ join (y # ys)"

text \<open>\<open>xs[i]\<close>: undefined (\<open>None\<close>) out of range.\<close>

fun index :: "'a list \<Rightarrow> nat \<Rightarrow> 'a option" where
  "index [] i = None"
| "index (x # xs) 0 = Some x"
| "index (x # xs) (Suc i) = index xs i"

text \<open>\<open>Array.prototype.every\<close> with a callback of the value and its index.\<close>

fun every_from :: "nat \<Rightarrow> ('a \<Rightarrow> nat \<Rightarrow> bool) \<Rightarrow> 'a list \<Rightarrow> bool" where
  "every_from i p [] = True"
| "every_from i p (x # xs) = (p x i \<and> every_from (Suc i) p xs)"

definition every :: "('a \<Rightarrow> nat \<Rightarrow> bool) \<Rightarrow> 'a list \<Rightarrow> bool" where
  "every p xs = every_from 0 p xs"

section \<open>snapshotTimestamp, snapshot, shouldSync\<close>

text \<open>
  \<open>Math.floor(Date.now() / 1000)\<close>, then \<open>Math.floor(s / 10) * 10\<close>. \<open>Date.now()\<close> is
  an integer below \<open>2^53\<close> in absolute value, where the floor of the floating-point
  quotient is the integer quotient rounded down (\<open>div\<close> on \<open>int\<close>).
\<close>

definition snapshotTimestamp :: "'w SyncEngine \<Rightarrow> 'w \<Rightarrow> int" where
  "snapshotTimestamp se w =
     (let currentTimeInSeconds = dateNow se w div 1000
      in (currentTimeInSeconds div SYNC_THRESHOLD_IN_SECONDS) * SYNC_THRESHOLD_IN_SECONDS)"

definition snapshot :: "'w SyncEngine \<Rightarrow> 'w \<Rightarrow> TrieSnapshot" where
  "snapshot se w = getSnapshot (trie se) w (div10_toString (snapshotTimestamp se w))"

definition shouldSync :: "'w SyncEngine \<Rightarrow> string list \<Rightarrow> 'w state \<Rightarrow> bool \<times> 'w state" where
  "shouldSync se theirs s =
     (if isSyncing s then
        (False, logLine ''shouldSync'' Debug NoPayload ''shouldSync: already syncing'' s)
      else
        (let ourSnapshot = snapshot se (world s);
             excludedHashesMatch =
               (length (excludedHashes ourSnapshot) = length theirs \<and>
                every (\<lambda>value i. index theirs i = Some value) (excludedHashes ourSnapshot))
         in (\<not> excludedHashesMatch,
             logLine ''shouldSync'' Debug NoPayload
               (''shouldSync: excluded hashes check: '' @ join theirs) s)))"

section \<open>fetchMissingHashesByPrefix and fetchMissingHashesByNode\<close>

text \<open>
  \<open>ourNode?.children?.get(theirChildChar)?.hash\<close>: undefined (\<open>None\<close>) when our node is
  absent, has no children, or has no child under that key.
\<close>

definition ourChildHash :: "NodeMetadata option \<Rightarrow> string \<Rightarrow> string option" where
  "ourChildHash ourNode theirChildChar =
     (case ourNode of
        None \<Rightarrow> None
      | Some n \<Rightarrow>
          (case children n of
             None \<Rightarrow> None
           | Some cs \<Rightarrow>
               (case map_of cs theirChildChar of
                  None \<Rightarrow> None
                | Some c \<Rightarrow> Some (node_hash c))))"

text \<open>
  The two methods call each other through the peer, whose answers nothing bounds: the
  recursion has fuel, one unit for each metadata request on the way down, and \<open>None\<close>
  is the run that has not returned when the fuel is gone. \<open>forChildren\<close> is the
  \<open>for ... of theirNode.children.entries()\<close> loop, with \<open>missingHashes\<close> as it stands.
  A rejected await leaves the method at once (\<open>Inl\<close>).
\<close>

function (sequential) fetchMissingHashesByPrefix ::
    "nat \<Rightarrow> 'w SyncEngine \<Rightarrow> 'w RPCClient \<Rightarrow> string \<Rightarrow> 'w state \<Rightarrow>
       (string list Promise \<times> 'w state) option"
  and fetchMissingHashesByNode ::
    "nat \<Rightarrow> 'w SyncEngine \<Rightarrow> 'w RPCClient \<Rightarrow> NodeMetadata \<Rightarrow> NodeMetadata option \<Rightarrow> 'w state \<Rightarrow>
       (string list Promise \<times> 'w state) option"
  and forChildren ::
    "nat \<Rightarrow> 'w SyncEngine \<Rightarrow> 'w RPCClient \<Rightarrow> NodeMetadata option \<Rightarrow> (string \<times> NodeMetadata) list \<Rightarrow>
       string list \<Rightarrow> 'w state \<Rightarrow> (string list Promise \<times> 'w state) option"
where
  "fetchMissingHashesByPrefix 0 se rpcClient pfx s = None"
| "fetchMissingHashesByPrefix (Suc n) se rpcClient pfx s =
     (let ourNode = getTrieNodeMetadata (trie se) (world s) pfx in
      case await ''fetchMissingHashesByPrefix'' (getSyncMetadataByPrefix rpcClient pfx)
             (GetSyncMetadataByPrefix pfx) s of
        (Inl e, s1) \<Rightarrow> Some (Inl e, s1)
      | (Inr (Inr theirNode), s1) \<Rightarrow> fetchMissingHashesByNode n se rpcClient theirNode ourNode s1
      | (Inr (Inl err), s1) \<Rightarrow>
          Some (Inr [], logLine ''fetchMissingHashesByPrefix'' Warn (Failure err)
                          (''Error fetching metadata for prefix '' @ pfx) s1))"
| "fetchMissingHashesByNode n se rpcClient theirNode ourNode s =
     (if numMessages theirNode \<le> HASHES_PER_FETCH then
        (case await ''fetchMissingHashesByNode'' (getSyncIdsByPrefix rpcClient (prefix theirNode))
                (GetSyncIdsByPrefix (prefix theirNode)) s of
           (Inl e, s1) \<Rightarrow> Some (Inl e, s1)
         | (Inr (Inr ids), s1) \<Rightarrow> Some (Inr ids, s1)
         | (Inr (Inl err), s1) \<Rightarrow>
             Some (Inr [], logLine ''fetchMissingHashesByNode'' Warn (Failure err)
                             (''Error fetching ids for prefix '' @ prefix theirNode) s1))
      else
        (case children theirNode of
           Some cs \<Rightarrow> forChildren n se rpcClient ourNode cs [] s
         | None \<Rightarrow> Some (Inr [], s)))"
| "forChildren n se rpcClient ourNode [] missingHashes s = Some (Inr missingHashes, s)"
| "forChildren n se rpcClient ourNode ((theirChildChar, theirChild) # rest) missingHashes s =
     (if ourChildHash ourNode theirChildChar \<noteq> Some (node_hash theirChild) then
        (case fetchMissingHashesByPrefix n se rpcClient (prefix theirChild) s of
           None \<Rightarrow> None
         | Some (Inl e, s1) \<Rightarrow> Some (Inl e, s1)
         | Some (Inr hs, s1) \<Rightarrow> forChildren n se rpcClient ourNode rest (missingHashes @ hs) s1)
      else forChildren n se rpcClient ourNode rest missingHashes s)"
  by pat_completeness auto

text \<open>
  Termination: the fuel goes down on the way from ByPrefix to ByNode; with the same fuel,
  ByNode enters the loop, the loop shortens its list, and the loop calls ByPrefix.
\<close>

termination
  by (relation "(\<lambda>x. case x of
         Inl (n, se, rpcClient, pfx, s) \<Rightarrow> 3 * n
       | Inr (Inl (n, se, rpcClient, theirNode, ourNode, s)) \<Rightarrow> 3 * n + 2
       | Inr (Inr (n, se, rpcClient, ourNode, cs, acc, s)) \<Rightarrow> 3 * n + 1) <*mlex*> measure (\<lambda>x. case x of
         Inl (n, se, rpcClient, pfx, s) \<Rightarrow> 0
       | Inr (Inl (n, se, rpcClient, theirNode, ourNode, s)) \<Rightarrow> 0
       | Inr (Inr (n, se, rpcClient, ourNode, cs, acc, s)) \<Rightarrow> length cs)")
    (auto simp: wf_mlex mlex_less mlex_leq)

section \<open>syncUserAndRetryMessage and fetchAndMergeMessages\<close>

definition syncUserAndRetryMessage ::
  "'w SyncEngine \<Rightarrow> 'w RPCClient \<Rightarrow> Message \<Rightarrow> 'w state \<Rightarrow> unit HubResult Promise \<times> 'w state" where
  "syncUserAndRetryMessage se rpcClient message s0 =
     (let who = ''syncUserAndRetryMessage'';
          s = record_event who (Enter who message) s0;
          f = fid (data message) in
      case await who (getCustodyEventByUser rpcClient f) (GetCustodyEventByUser f) s of
        (Inl e, s1) \<Rightarrow> (Inl e, s1)
      | (Inr (Inl _), s1) \<Rightarrow>
          (Inr (Inl (HubError ''unavailable.network_failure'' (Text ''Failed to fetch custody event''))), s1)
      | (Inr (Inr custodyEvent), s1) \<Rightarrow>
     (case await who (mergeIdRegistryEvent (engine se) custodyEvent ''SyncEngine'')
             (MergeIdRegistryEvent custodyEvent ''SyncEngine'') s1 of
        (Inl e, s2) \<Rightarrow> (Inl e, s2)
      | (Inr _, s2) \<Rightarrow>
     (case await who (getAllSignerMessagesByUser rpcClient f) (GetAllSignerMessagesByUser f) s2 of
        (Inl e, s3) \<Rightarrow> (Inl e, s3)
      | (Inr (Inl _), s3) \<Rightarrow>
          (Inr (Inl (HubError ''unavailable.network_failure'' (Text ''Failed to fetch signer messages''))), s3)
      | (Inr (Inr signerMessages), s3) \<Rightarrow>
     (case await who (mergeMessages (engine se) signerMessages ''SyncEngine'')
             (MergeMessages signerMessages ''SyncEngine'') s3 of
        (Inl e, s4) \<Rightarrow> (Inl e, s4)
      | (Inr results, s4) \<Rightarrow>
          if list_all isl results then
            (Inr (Inl (HubError ''unavailable.storage_failure'' (Text ''Failed to merge signer messages''))), s4)
          else
            (case await who (mergeMessage (engine se) message ''SyncEngine'')
                    (MergeMessage message ''SyncEngine'') s4 of
               (Inl e, s5) \<Rightarrow> (Inl e, s5)
             | (Inr r, s5) \<Rightarrow>
                 (Inr (map_sum (\<lambda>e. HubError ''unavailable.storage_failure'' (Cause e)) id r), s5))))))"

text \<open>
  What \<open>mergeResults\<close> holds: the result of the merge, or the result of
  \<open>syncUserAndRetryMessage\<close> where that was called.
\<close>

type_synonym mergeResult = "(EngineError + HubError) + unit"

text \<open>The \<open>for (const msg of msgs)\<close> loop of fetchAndMergeMessages.\<close>

fun forMsgs ::
  "'w SyncEngine \<Rightarrow> 'w RPCClient \<Rightarrow> Message list \<Rightarrow> mergeResult list \<Rightarrow> 'w state \<Rightarrow>
     mergeResult list Promise \<times> 'w state" where
  "forMsgs se rpcClient [] mergeResults s = (Inr mergeResults, s)"
| "forMsgs se rpcClient (msg # msgs) mergeResults s =
     (case await ''fetchAndMergeMessages'' (mergeMessage (engine se) msg ''SyncEngine'')
             (MergeMessage msg ''SyncEngine'') s of
        (Inl e, s1) \<Rightarrow> (Inl e, s1)
      | (Inr result, s1) \<Rightarrow>
          if isl result \<and> statusCode (projl result) = 412 then
            (case syncUserAndRetryMessage se rpcClient msg
                    (logLine ''fetchAndMergeMessages'' Warn (Fields [(''fid'', Num (int (fid (data msg))))])
                       ''Unknown user, fetching custody event'' s1) of
               (Inl e, s2) \<Rightarrow> (Inl e, s2)
             | (Inr result2, s2) \<Rightarrow>
                 forMsgs se rpcClient msgs (mergeResults @ [map_sum Inr id result2]) s2)
          else forMsgs se rpcClient msgs (mergeResults @ [map_sum Inl id result]) s1)"

definition fetchAndMergeMessages ::
  "'w SyncEngine \<Rightarrow> 'w RPCClient \<Rightarrow> string list \<Rightarrow> 'w state \<Rightarrow> bool Promise \<times> 'w state" where
  "fetchAndMergeMessages se rpcClient hashes s =
     (if length hashes = 0 then (Inr False, s)
      else
        (case await ''fetchAndMergeMessages''
                (getMessagesByHashes rpcClient (map (\<lambda>hash. ''0x'' @ hash) hashes))
                (GetMessagesByHashes (map (\<lambda>hash. ''0x'' @ hash) hashes)) s of
           (Inl e, s1) \<Rightarrow> (Inl e, s1)
         | (Inr (Inr msgs), s1) \<Rightarrow>
             (case forMsgs se rpcClient msgs [] s1 of
                (Inl e, s2) \<Rightarrow> (Inl e, s2)
              | (Inr mergeResults, s2) \<Rightarrow>
                  (Inr True,
                   logLine ''fetchAndMergeMessages'' Info
                     (Fields [(''messages'', Num (int (length mergeResults))),
                              (''success'', Num (int (length (filter (\<lambda>r. \<not> isl r) mergeResults))))])
                     ''Merged messages'' s2))
         | (Inr (Inl err), s1) \<Rightarrow>
             (Inr False,
              logLine ''fetchAndMergeMessages'' Warn (Failure err) ''Error fetching messages for sync'' s1)))"

section \<open>performSync\<close>

text \<open>The body of the \<open>try\<close> block.\<close>

definition performSync_try ::
  "nat \<Rightarrow> 'w SyncEngine \<Rightarrow> 'w RPCClient \<Rightarrow> string list \<Rightarrow> 'w state \<Rightarrow>
     (unit Promise \<times> 'w state) option" where
  "performSync_try fuel se rpcClient theirs s0 =
     (let who = ''performSync'';
          s = s0\<lparr>isSyncing := True\<rparr>;
          ourSnapshot = snapshot se (world s);
          divergencePrefix =
            getDivergencePrefix (trie se) (world s) (snapshot_prefix ourSnapshot) theirs;
          s1 = logLine who Info
                 (Fields [(''divergencePrefix'', Str divergencePrefix),
                          (''prefix'', Str (snapshot_prefix ourSnapshot))])
                 ''Divergence prefix'' s
      in case fetchMissingHashesByPrefix fuel se rpcClient divergencePrefix s1 of
           None \<Rightarrow> None
         | Some (Inl e, s2) \<Rightarrow> Some (Inl e, s2)
         | Some (Inr missingIds, s2) \<Rightarrow>
             (case fetchAndMergeMessages se rpcClient missingIds
                     (logLine who Info (Fields [(''missingCount'', Num (int (length missingIds)))])
                        ''Fetched missing hashes'' s2) of
                (Inl e, s4) \<Rightarrow> Some (Inl e, s4)
              | (Inr _, s4) \<Rightarrow> Some (Inr (), logLine who Info NoPayload ''Sync complete'' s4)))"

text \<open>
  \<open>try\<close> / \<open>catch\<close> / \<open>finally\<close>: what the body throws is logged, and the flag is cleared
  on the way out either way. The result is what the caller of performSync awaits.
\<close>

definition performSync ::
  "nat \<Rightarrow> 'w SyncEngine \<Rightarrow> 'w RPCClient \<Rightarrow> string list \<Rightarrow> 'w state \<Rightarrow>
     (unit Promise \<times> 'w state) option" where
  "performSync fuel se rpcClient theirs s =
     (case performSync_try fuel se rpcClient theirs s of
        None \<Rightarrow> None
      | Some (r, s1) \<Rightarrow>
          (let s2 = (case r of
                       Inl e \<Rightarrow> logLine ''performSync'' Warn (Caught e) ''Error performing sync'' s1
                     | Inr _ \<Rightarrow> s1)
           in Some (Inr (), s2\<lparr>isSyncing := False\<rparr>)))"

section \<open>Gossip messages: encodeMessage and decodeMessage\<close>

text \<open>
  A JavaScript value as far as JSON reaches, and \<open>undefined\<close>. An object is the list of
  its properties in order.
\<close>

datatype jsval =
    JUndefined
  | JNull
  | JBool bool
  | JNum rat
  | JStr string
  | JArr "jsval list"
  | JObj "(string \<times> jsval) list"

text \<open>\<open>!message\<close> holds of the values that are not truthy.\<close>

fun truthy :: "jsval \<Rightarrow> bool" where
  "truthy JUndefined = False"
| "truthy JNull = False"
| "truthy (JBool b) = b"
| "truthy (JNum r) = (r \<noteq> 0)"
| "truthy (JStr s) = (s \<noteq> [])"
| "truthy (JArr xs) = True"
| "truthy (JObj ps) = True"

text \<open>
  What the module imports: the type guard of \<open>~/types/typeguards\<close>, the two wrappers of
  \<open>~/utils/safe\<close> around \<open>JSON.stringify\<close> and \<open>JSON.parse\<close>, and the runtime's
  \<open>TextEncoder\<close> and \<open>TextDecoder\<close> (UTF-8). None of them is in the module; they are
  parameters. A \<open>Uint8Array\<close> is the list of its byte values.
\<close>

record deps =
  isGossipMessage :: "jsval \<Rightarrow> bool"
  safeJsonStringify :: "jsval \<Rightarrow> string HubResult"
  safeJsonParse :: "string \<Rightarrow> jsval HubResult"
  encode :: "string \<Rightarrow> nat list"
  decode :: "nat list \<Rightarrow> string"

definition encodeMessage :: "deps \<Rightarrow> jsval \<Rightarrow> nat list HubResult" where
  "encodeMessage im message =
     (if \<not> isGossipMessage im message then
        Inl (HubError ''bad_request.parse_failure'' (Text ''invalid gossip message''))
      else
        (case safeJsonStringify im message of
           Inl e \<Rightarrow> Inl e
         | Inr json \<Rightarrow> Inr (encode im json)))"

definition decodeMessage :: "deps \<Rightarrow> nat list \<Rightarrow> jsval HubResult" where
  "decodeMessage im bytes =
     (let json = decode im bytes in
      case safeJsonParse im json of
        Inl e \<Rightarrow> Inl e
      | Inr message \<Rightarrow>
          if \<not> truthy message \<or> \<not> isGossipMessage im message then
            Inl (HubError ''bad_request.parse_failure'' (Text ''invalid gossip message''))
          else Inr message)"

text \<open>
  The error kind the specification calls \<open>bad_input\<close> (a malformed message, an invalid
  gossip envelope): in the code these are the errors whose code is \<open>bad_request\<close> or starts
  with \<open>bad_request.\<close>, as \<open>bad_request.parse_failure\<close> does.
\<close>

definition badInput :: "HubError \<Rightarrow> bool" where
  "badInput e \<longleftrightarrow> errCode e = ''bad_request'' \<or> take 12 (errCode e) = ''bad_request.''"

section \<open>Reading a history\<close>

text \<open>The reason of the rejection, for a call that was rejected.\<close>

fun rejection :: "event \<Rightarrow> exn option" where
  "rejection (GetSyncMetadataByPrefix p (Inl e)) = Some e"
| "rejection (GetSyncIdsByPrefix p (Inl e)) = Some e"
| "rejection (GetMessagesByHashes hs (Inl e)) = Some e"
| "rejection (GetCustodyEventByUser f (Inl e)) = Some e"
| "rejection (GetAllSignerMessagesByUser f (Inl e)) = Some e"
| "rejection (MergeMessage m src (Inl e)) = Some e"
| "rejection (MergeMessages ms src (Inl e)) = Some e"
| "rejection (MergeIdRegistryEvent c src (Inl e)) = Some e"
| "rejection _ = None"

text \<open>
  The merges fetchAndMergeMessages itself asked of the storage, in order: the message, the
  source it gave and what the merge settled to.
\<close>

fun merges :: "entry list \<Rightarrow> (Message \<times> string \<times> MergeResult Promise) list" where
  "merges [] = []"
| "merges (e # es) =
     (case ev e of
        MergeMessage m src out \<Rightarrow>
          (if caller e = ''fetchAndMergeMessages'' then [(m, src, out)] else [])
      | _ \<Rightarrow> []) @ merges es"

text \<open>The messages syncUserAndRetryMessage was entered with, in order.\<close>

fun entered :: "event list \<Rightarrow> Message list" where
  "entered [] = []"
| "entered (Enter who m # es) = m # entered es"
| "entered (_ # es) = entered es"

text \<open>The lists of hashes that were asked of the peer.\<close>

fun hashRequests :: "event list \<Rightarrow> string list list" where
  "hashRequests [] = []"
| "hashRequests (GetMessagesByHashes hs r # es) = hs # hashRequests es"
| "hashRequests (_ # es) = hashRequests es"

text \<open>The requests that went to the peer.\<close>

fun isRequest :: "event \<Rightarrow> bool" where
  "isRequest (GetSyncMetadataByPrefix p r) = True"
| "isRequest (GetSyncIdsByPrefix p r) = True"
| "isRequest (GetMessagesByHashes hs r) = True"
| "isRequest (GetCustodyEventByUser f r) = True"
| "isRequest (GetAllSignerMessagesByUser f r) = True"
| "isRequest _ = False"

definition requests :: "entry list \<Rightarrow> event list" where
  "requests tr = filter isRequest (map ev tr)"

text \<open>A merge that resolved to an error with status code 412.\<close>

definition unknownUser :: "MergeResult Promise \<Rightarrow> bool" where
  "unknownUser out \<longleftrightarrow> (case out of Inr (Inl e) \<Rightarrow> statusCode e = 412 | _ \<Rightarrow> False)"

text \<open>A result that is an error with the given code.\<close>

definition failsWith :: "string \<Rightarrow> unit HubResult Promise \<Rightarrow> bool" where
  "failsWith code r \<longleftrightarrow> (case r of Inr (Inl h) \<Rightarrow> errCode h = code | _ \<Rightarrow> False)"

text \<open>
  Collaborators that keep to their interface: every call resolves, to \<open>ok\<close> or to
  \<open>err\<close>, and none is rejected.
\<close>

definition resolves :: "'w SyncEngine \<Rightarrow> 'w RPCClient \<Rightarrow> bool" where
  "resolves se rpcClient \<longleftrightarrow>
     (\<forall>p w. \<not> isl (fst (getSyncMetadataByPrefix rpcClient p w))) \<and>
     (\<forall>p w. \<not> isl (fst (getSyncIdsByPrefix rpcClient p w))) \<and>
     (\<forall>hs w. \<not> isl (fst (getMessagesByHashes rpcClient hs w))) \<and>
     (\<forall>f w. \<not> isl (fst (getCustodyEventByUser rpcClient f w))) \<and>
     (\<forall>f w. \<not> isl (fst (getAllSignerMessagesByUser rpcClient f w))) \<and>
     (\<forall>m src w. \<not> isl (fst (mergeMessage (engine se) m src w))) \<and>
     (\<forall>ms src w. \<not> isl (fst (mergeMessages (engine se) ms src w))) \<and>
     (\<forall>c src w. \<not> isl (fst (mergeIdRegistryEvent (engine se) c src w)))"

text \<open>
  From one state to a later one of the same run: the flag is as it was, and the history
  has grown by entries made under that flag.
\<close>

definition steps :: "'w state \<Rightarrow> 'w state \<Rightarrow> bool" where
  "steps s s' \<longleftrightarrow>
     isSyncing s' = isSyncing s \<and>
     (\<exists>tr. history s' = history s @ tr \<and> list_all (\<lambda>e. syncing e = isSyncing s) tr)"

text \<open>
  Replaying a history on a world: each recorded call is made again, on the world the
  calls before it left, and has to settle to what is recorded; what comes out is the
  world the last call leaves. \<open>None\<close> when some recorded outcome is not what the
  collaborator answers there. Log lines and the entry marker leave the world alone.
\<close>

fun perform :: "'w SyncEngine \<Rightarrow> 'w RPCClient \<Rightarrow> event \<Rightarrow> 'w \<Rightarrow> 'w option" where
  "perform se rpcClient (GetSyncMetadataByPrefix p out) w =
     (if fst (getSyncMetadataByPrefix rpcClient p w) = out
      then Some (snd (getSyncMetadataByPrefix rpcClient p w)) else None)"
| "perform se rpcClient (GetSyncIdsByPrefix p out) w =
     (if fst (getSyncIdsByPrefix rpcClient p w) = out
      then Some (snd (getSyncIdsByPrefix rpcClient p w)) else None)"
| "perform se rpcClient (GetMessagesByHashes hs out) w =
     (if fst (getMessagesByHashes rpcClient hs w) = out
      then Some (snd (getMessagesByHashes rpcClient hs w)) else None)"
| "perform se rpcClient (GetCustodyEventByUser f out) w =
     (if fst (getCustodyEventByUser rpcClient f w) = out
      then Some (snd (getCustodyEventByUser rpcClient f w)) else None)"
| "perform se rpcClient (GetAllSignerMessagesByUser f out) w =
     (if fst (getAllSignerMessagesByUser rpcClient f w) = out
      then Some (snd (getAllSignerMessagesByUser rpcClient f w)) else None)"
| "perform se rpcClient (MergeMessage m src out) w =
     (if fst (mergeMessage (engine se) m src w) = out
      then Some (snd (mergeMessage (engine se) m src w)) else None)"
| "perform se rpcClient (MergeMessages ms src out) w =
     (if fst (mergeMessages (engine se) ms src w) = out
      then Some (snd (mergeMessages (engine se) ms src w)) else None)"
| "perform se rpcClient (MergeIdRegistryEvent c src out) w =
     (if fst (mergeIdRegistryEvent (engine se) c src w) = out
      then Some (snd (mergeIdRegistryEvent (engine se) c src w)) else None)"
| "perform se rpcClient (Log l p t) w = Some w"
| "perform se rpcClient (Enter who m) w = Some w"

fun replay :: "'w SyncEngine \<Rightarrow> 'w RPCClient \<Rightarrow> event list \<Rightarrow> 'w \<Rightarrow> 'w option" where
  "replay se rpcClient [] w = Some w"
| "replay se rpcClient (e # es) w =
     (case perform se rpcClient e w of
        None \<Rightarrow> None
      | Some w1 \<Rightarrow> replay se rpcClient es w1)"

text \<open>
  From one state to a later one by calls that were really made: the new entries replay
  from the world of the first state to the world of the second.
\<close>

definition genuine :: "'w SyncEngine \<Rightarrow> 'w RPCClient \<Rightarrow> 'w state \<Rightarrow> 'w state \<Rightarrow> bool" where
  "genuine se rpcClient s s' \<longleftrightarrow>
     (\<exists>tr. history s' = history s @ tr \<and>
           replay se rpcClient (map ev tr) (world s) = Some (world s'))"

text \<open>
  A peer whose trie has an end: some rank of the prefixes goes down from the prefix asked
  for to the prefix of every child of the node the peer answers with.
\<close>

definition descends :: "(string \<Rightarrow> nat) \<Rightarrow> 'w RPCClient \<Rightarrow> bool" where
  "descends rank rpcClient \<longleftrightarrow>
     (\<forall>p w node cs c child.
        fst (getSyncMetadataByPrefix rpcClient p w) = Inr (Inr node) \<and>
        children node = Some cs \<and> (c, child) \<in> set cs \<longrightarrow>
        rank (prefix child) < rank p)"

text \<open>
  The runs of syncUserAndRetryMessage, by the events they leave and the result: each
  line is one way out of the method.
\<close>

definition retryRun :: "Message \<Rightarrow> event list \<Rightarrow> unit HubResult Promise \<Rightarrow> bool" where
  "retryRun message evs r \<longleftrightarrow>
     (\<exists>e. evs = [Enter ''syncUserAndRetryMessage'' message,
                  GetCustodyEventByUser (fid (data message)) (Inl e)] \<and> r = Inl e) \<or>
     (\<exists>h. evs = [Enter ''syncUserAndRetryMessage'' message,
                  GetCustodyEventByUser (fid (data message)) (Inr (Inl h))] \<and>
          r = Inr (Inl (HubError ''unavailable.network_failure'' (Text ''Failed to fetch custody event'')))) \<or>
     (\<exists>c e. evs = [Enter ''syncUserAndRetryMessage'' message,
                  GetCustodyEventByUser (fid (data message)) (Inr (Inr c)),
                  MergeIdRegistryEvent c ''SyncEngine'' (Inl e)] \<and> r = Inl e) \<or>
     (\<exists>c i e. evs = [Enter ''syncUserAndRetryMessage'' message,
                  GetCustodyEventByUser (fid (data message)) (Inr (Inr c)),
                  MergeIdRegistryEvent c ''SyncEngine'' (Inr i),
                  GetAllSignerMessagesByUser (fid (data message)) (Inl e)] \<and> r = Inl e) \<or>
     (\<exists>c i h. evs = [Enter ''syncUserAndRetryMessage'' message,
                  GetCustodyEventByUser (fid (data message)) (Inr (Inr c)),
                  MergeIdRegistryEvent c ''SyncEngine'' (Inr i),
                  GetAllSignerMessagesByUser (fid (data message)) (Inr (Inl h))] \<and>
          r = Inr (Inl (HubError ''unavailable.network_failure'' (Text ''Failed to fetch signer messages'')))) \<or>
     (\<exists>c i ms e. evs = [Enter ''syncUserAndRetryMessage'' message,
                  GetCustodyEventByUser (fid (data message)) (Inr (Inr c)),
                  MergeIdRegistryEvent c ''SyncEngine'' (Inr i),
                  GetAllSignerMessagesByUser (fid (data message)) (Inr (Inr ms)),
                  MergeMessages ms ''SyncEngine'' (Inl e)] \<and> r = Inl e) \<or>
     (\<exists>c i ms rs. evs = [Enter ''syncUserAndRetryMessage'' message,
                  GetCustodyEventByUser (fid (data message)) (Inr (Inr c)),
                  MergeIdRegistryEvent c ''SyncEngine'' (Inr i),
                  GetAllSignerMessagesByUser (fid (data message)) (Inr (Inr ms)),
                  MergeMessages ms ''SyncEngine'' (Inr rs)] \<and> list_all isl rs \<and>
          r = Inr (Inl (HubError ''unavailable.storage_failure'' (Text ''Failed to merge signer messages'')))) \<or>
     (\<exists>c i ms rs e. evs = [Enter ''syncUserAndRetryMessage'' message,
                  GetCustodyEventByUser (fid (data message)) (Inr (Inr c)),
                  MergeIdRegistryEvent c ''SyncEngine'' (Inr i),
                  GetAllSignerMessagesByUser (fid (data message)) (Inr (Inr ms)),
                  MergeMessages ms ''SyncEngine'' (Inr rs),
                  MergeMessage message ''SyncEngine'' (Inl e)] \<and> \<not> list_all isl rs \<and> r = Inl e) \<or>
     (\<exists>c i ms rs out. evs = [Enter ''syncUserAndRetryMessage'' message,
                  GetCustodyEventByUser (fid (data message)) (Inr (Inr c)),
                  MergeIdRegistryEvent c ''SyncEngine'' (Inr i),
                  GetAllSignerMessagesByUser (fid (data message)) (Inr (Inr ms)),
                  MergeMessages ms ''SyncEngine'' (Inr rs),
                  MergeMessage message ''SyncEngine'' (Inr out)] \<and> \<not> list_all isl rs \<and>
          r = Inr (map_sum (\<lambda>e. HubError ''unavailable.storage_failure'' (Cause e)) id out))"

section \<open>What the recursion of fetchMissingHashesByNode is compared with\<close>

text \<open>
  The child of our node under a key, if our node is there and has one; the children of
  the peer's node that the walk has to enter: those for which our node has no child under
  the key, or has one with another hash.
\<close>

definition ourChild :: "NodeMetadata option \<Rightarrow> string \<Rightarrow> NodeMetadata option" where
  "ourChild ourNode k =
     (case ourNode of
        None \<Rightarrow> None
      | Some n \<Rightarrow> (case children n of None \<Rightarrow> None | Some cs \<Rightarrow> map_of cs k))"

definition wanted :: "NodeMetadata option \<Rightarrow> string \<times> NodeMetadata \<Rightarrow> bool" where
  "wanted ourNode c =
     (case ourChild ourNode (fst c) of
        None \<Rightarrow> True
      | Some oc \<Rightarrow> node_hash oc \<noteq> node_hash (snd c))"

text \<open>
  Entering the prefixes of a list one after the other through fetchMissingHashesByPrefix
  and accumulating what each returns; the first rejection ends it.
\<close>

fun accumulate ::
  "nat \<Rightarrow> 'w SyncEngine \<Rightarrow> 'w RPCClient \<Rightarrow> string list \<Rightarrow> string list \<Rightarrow> 'w state \<Rightarrow>
     (string list Promise \<times> 'w state) option" where
  "accumulate n se rpcClient [] acc s = Some (Inr acc, s)"
| "accumulate n se rpcClient (p # ps) acc s =
     (case fetchMissingHashesByPrefix n se rpcClient p s of
        None \<Rightarrow> None
      | Some (Inl e, s1) \<Rightarrow> Some (Inl e, s1)
      | Some (Inr hs, s1) \<Rightarrow> accumulate n se rpcClient ps (acc @ hs) s1)"

section \<open>What the loop of fetchAndMergeMessages is compared with\<close>

text \<open>
  One message: it is merged through the storage with the source \<open>SyncEngine\<close>, and when
  that merge resolves to an error with status code 412, syncUserAndRetryMessage is
  called for it (after the warning), whose result then stands for the message.
\<close>

definition mergeOne ::
  "'w SyncEngine \<Rightarrow> 'w RPCClient \<Rightarrow> Message \<Rightarrow> 'w state \<Rightarrow> mergeResult Promise \<times> 'w state" where
  "mergeOne se rpcClient m s =
     (case await ''fetchAndMergeMessages'' (mergeMessage (engine se) m ''SyncEngine'')
             (MergeMessage m ''SyncEngine'') s of
        (Inl e, s1) \<Rightarrow> (Inl e, s1)
      | (Inr res, s1) \<Rightarrow>
          if unknownUser (Inr res) then
            (case syncUserAndRetryMessage se rpcClient m
                    (logLine ''fetchAndMergeMessages'' Warn (Fields [(''fid'', Num (int (fid (data m))))])
                       ''Unknown user, fetching custody event'' s1) of
               (Inl e, s2) \<Rightarrow> (Inl e, s2)
             | (Inr recovered, s2) \<Rightarrow> (Inr (map_sum Inr id recovered), s2))
          else (Inr (map_sum Inl id res), s1))"

text \<open>
  Strictly one after the other, in the order of the list: each step starts in the state
  the step before it left; a rejection ends the run.
\<close>

fun strictlyInOrder ::
  "('a \<Rightarrow> 's \<Rightarrow> 'b Promise \<times> 's) \<Rightarrow> 'a list \<Rightarrow> 's \<Rightarrow> 'b list Promise \<times> 's" where
  "strictlyInOrder step [] s = (Inr [], s)"
| "strictlyInOrder step (x # xs) s =
     (case step x s of
        (Inl e, s1) \<Rightarrow> (Inl e, s1)
      | (Inr y, s1) \<Rightarrow>
          (case strictlyInOrder step xs s1 of
             (Inl e, s2) \<Rightarrow> (Inl e, s2)
           | (Inr ys, s2) \<Rightarrow> (Inr (y # ys), s2)))"

section \<open>A small network to run the engine on\<close>

text \<open>
  The world of the examples: the users whose custody event the storage has merged, and
  the clock. The storage refuses a message of an unknown user with status 412.
\<close>

record net =
  known :: "nat list"
  clock :: int

definition msg :: "nat \<Rightarrow> string \<Rightarrow> Message" where
  "msg f h = \<lparr>data = MessageData f, hash = h\<rparr>"

definition leaf :: "string \<Rightarrow> int \<Rightarrow> string \<Rightarrow> NodeMetadata" where
  "leaf p n h = NodeMetadata p n h None"

definition merge_net :: "Message \<Rightarrow> net \<Rightarrow> MergeResult" where
  "merge_net m w =
     (if fid (data m) \<in> set (known w) then Inr () else Inl (EngineError 412 ''unknown user''))"

definition storage :: "net Engine" where
  "storage =
     \<lparr>mergeMessage = (\<lambda>m src w. (Inr (merge_net m w), w)),
      mergeMessages = (\<lambda>ms src w. (Inr (map (\<lambda>m. merge_net m w) ms), w)),
      mergeIdRegistryEvent =
        (\<lambda>e src w. case e of IdRegistryEvent f _ \<Rightarrow> (Inr (Inr ()), w\<lparr>known := f # known w\<rparr>))\<rparr>"

text \<open>
  A storage that knows no user and cannot write: it refuses every message with status
  412 and fails every other merge with status 500.
\<close>

definition broken_storage :: "net Engine" where
  "broken_storage =
     \<lparr>mergeMessage = (\<lambda>m src w. (Inr (Inl (EngineError 412 ''unknown user'')), w)),
      mergeMessages = (\<lambda>ms src w. (Inr (map (\<lambda>m. Inl (EngineError 500 ''disk'')) ms), w)),
      mergeIdRegistryEvent = (\<lambda>e src w. (Inr (Inl (EngineError 500 ''disk'')), w))\<rparr>"

text \<open>
  Our trie holds 60 messages under \<open>00000010\<close>, all below child \<open>0\<close>. The peer holds
  120 there: the same child \<open>0\<close>, and a child \<open>1\<close> with two messages we lack.
\<close>

definition local_trie :: "net MerkleTrie" where
  "local_trie =
     \<lparr>getTrieNodeMetadata =
        (\<lambda>w p. if p = ''00000010''
                then Some (NodeMetadata ''00000010'' 60 ''h2''
                             (Some [(''0'', leaf ''000000100'' 60 ''hx'')]))
                else None),
      getSnapshot =
        (\<lambda>w p. \<lparr>snapshot_prefix = p, snapshot_numMessages = 60, excludedHashes = [''e0'', ''e1'']\<rparr>),
      getDivergencePrefix = (\<lambda>w p theirs. ''00000010'')\<rparr>"

definition their_node :: NodeMetadata where
  "their_node =
     NodeMetadata ''00000010'' 120 ''h3''
       (Some [(''0'', leaf ''000000100'' 60 ''hx''), (''1'', leaf ''000000101'' 2 ''hy'')])"

definition peer :: "net RPCClient" where
  "peer =
     \<lparr>getSyncMetadataByPrefix =
        (\<lambda>p w. (Inr (if p = ''00000010'' then Inr their_node
                      else if p = ''000000101'' then Inr (leaf ''000000101'' 2 ''hy'')
                      else Inl (HubError ''not_found'' (Text ''unknown prefix''))), w)),
      getSyncIdsByPrefix =
        (\<lambda>p w. (Inr (if p = ''000000101'' then Inr [''aa'', ''bb''] else Inr []), w)),
      getMessagesByHashes =
        (\<lambda>hs w. (Inr (if hs = [''0xaa'', ''0xbb''] then Inr [msg 7 ''aa'', msg 7 ''bb'']
                       else Inl (HubError ''not_found'' (Text ''unknown hashes''))), w)),
      getCustodyEventByUser = (\<lambda>f w. (Inr (Inr (IdRegistryEvent f ''custody'')), w)),
      getAllSignerMessagesByUser = (\<lambda>f w. (Inr (Inr [msg f ''signer'']), w))\<rparr>"

text \<open>
  A peer that answers with two signer messages, the first of a user the storage does not
  know: merging them gives one error and one success.
\<close>

definition peer_mixed :: "net RPCClient" where
  "peer_mixed =
     peer\<lparr>getAllSignerMessagesByUser := (\<lambda>f w. (Inr (Inr [msg 8 ''other'', msg f ''signer'']), w))\<rparr>"

text \<open>A peer that goes down when the messages are asked for: the request is rejected.\<close>

definition peer_down :: "net RPCClient" where
  "peer_down =
     peer\<lparr>getMessagesByHashes := (\<lambda>hs w. (Inl (Thrown ''socket hang up''), w))\<rparr>"

definition hub :: "net SyncEngine" where
  "hub = \<lparr>trie = local_trie, engine = storage, dateNow = clock\<rparr>"

definition hub_broken :: "net SyncEngine" where
  "hub_broken = hub\<lparr>engine := broken_storage\<rparr>"

definition idle :: "net state" where
  "idle = \<lparr>isSyncing = False, world = \<lparr>known = [], clock = 1667455123456\<rparr>, history = []\<rparr>"

definition busy :: "net state" where
  "busy = idle\<lparr>isSyncing := True\<rparr>"

text \<open>
  A gossip message, its JSON text, and a runtime for them: a guard that accepts the objects
  with a \<open>content\<close> and an array of \<open>topics\<close>, JSON wrappers that know this message and
  \<open>null\<close>, and UTF-8 on ASCII text.
\<close>

definition hello :: jsval where
  "hello =
     JObj [(''content'', JObj [(''message'', JStr ''hi'')]),
           (''topics'', JArr [JStr ''f_network_topic_primary''])]"

definition hello_json :: string where
  "hello_json = ''{\"content\":{\"message\":\"hi\"},\"topics\":[\"f_network_topic_primary\"]}''"

definition wire :: deps where
  "wire =
     \<lparr>isGossipMessage =
        (\<lambda>v. case v of JObj [(k1, c), (k2, JArr ts)] \<Rightarrow> k1 = ''content'' \<and> k2 = ''topics'' | _ \<Rightarrow> False),
      safeJsonStringify =
        (\<lambda>v. if v = hello then Inr hello_json
             else if v = JNull then Inr ''null''
             else Inl (HubError ''bad_request.parse_failure'' (Text ''json stringify failure''))),
      safeJsonParse =
        (\<lambda>t. if t = hello_json then Inr hello
             else if t = ''null'' then Inr JNull
             else Inl (HubError ''bad_request.parse_failure'' (Text ''json parse failure''))),
      encode = map of_char,
      decode = map char_of\<rparr>"

section \<open>Properties of snapshotTimestamp, snapshot and shouldSync\<close>

lemma nat_abs_tenfold:
  fixes k :: int
  shows "nat \<bar>10 * k\<bar> = 10 * nat \<bar>k\<bar>"
  by (simp add: abs_mult nat_mult_distrib)

lemma div10_toString_multiple:
  assumes "n mod 10 = 0"
  shows "div10_toString n = toString (n div 10)"
proof -
  from assms have "10 dvd n" by (simp add: dvd_eq_mod_eq_0)
  then obtain k where k: "n = 10 * k" by (rule dvdE)
  have a: "nat \<bar>n\<bar> div 10 = nat \<bar>k\<bar>" and b: "nat \<bar>n\<bar> mod 10 = 0"
    unfolding k nat_abs_tenfold by simp_all
  have c: "n div 10 = k" and d: "n < 0 \<longleftrightarrow> k < 0" unfolding k by simp_all
  show ?thesis
    by (simp add: div10_toString_def toString_def Let_def a b c d)
qed

lemma snapshotTimestamp_mod: "snapshotTimestamp se w mod 10 = 0"
  by (simp add: snapshotTimestamp_def SYNC_THRESHOLD_IN_SECONDS_def Let_def)

lemma floor_ten_bounds:
  fixes x :: int
  shows "x div 10 * 10 \<le> x" and "x < x div 10 * 10 + 10"
  by presburger+

text \<open>
  Claim C6. At every time, snapshotTimestamp is the current UNIX time in seconds rounded
  down to a multiple of SYNC_THRESHOLD_IN_SECONDS = 10, that is
  \<open>floor (floor (t_ms / 1000) / 10) * 10\<close>: a multiple of 10, at most the current second and
  less than 10 below it. snapshot calls \<open>getSnapshot\<close> of the trie with the decimal
  rendering of snapshotTimestamp divided by 10 as prefix; the quotient is an integer, so
  the rendering has no decimal point.
\<close>

theorem snapshot_prefix_settled:
  "snapshotTimestamp se w = ((dateNow se w div 1000) div 10) * 10 \<and>
   snapshotTimestamp se w mod SYNC_THRESHOLD_IN_SECONDS = 0 \<and>
   snapshotTimestamp se w \<le> dateNow se w div 1000 \<and>
   dateNow se w div 1000 < snapshotTimestamp se w + SYNC_THRESHOLD_IN_SECONDS \<and>
   snapshot se w = getSnapshot (trie se) w (toString (snapshotTimestamp se w div 10))"
proof -
  have 1: "snapshotTimestamp se w = ((dateNow se w div 1000) div 10) * 10"
    by (simp add: snapshotTimestamp_def SYNC_THRESHOLD_IN_SECONDS_def Let_def)
  have 2: "snapshot se w = getSnapshot (trie se) w (toString (snapshotTimestamp se w div 10))"
    by (simp add: snapshot_def div10_toString_multiple [OF snapshotTimestamp_mod])
  have 3: "snapshotTimestamp se w \<le> dateNow se w div 1000"
    unfolding 1 by (rule floor_ten_bounds)
  have 4: "dateNow se w div 1000 < snapshotTimestamp se w + 10"
    unfolding 1 by (rule floor_ten_bounds)
  show ?thesis using 1 2 3 4 snapshotTimestamp_mod [of se w]
    by (simp only: SYNC_THRESHOLD_IN_SECONDS_def simp_thms)
qed

text \<open>
  At 2022-11-03 05:58:43.456 UTC the timestamp is 1667455120 and the prefix is its first nine
  digits. A number that 10 does not divide would print with a decimal point.
\<close>

lemma digits_small: "n < 10 \<Longrightarrow> digits n = [digit n]"
  by (simp add: digits.simps)

lemma digits_big: "\<not> n < 10 \<Longrightarrow> digits n = digits (n div 10) @ [digit (n mod 10)]"
  by (subst digits.simps) simp

lemma snapshot_example:
  "snapshotTimestamp hub (world idle) = 1667455120"
  "snapshot_prefix (snapshot hub (world idle)) = ''166745512''"
  "div10_toString 1667455125 = ''166745512.5''"
proof -
  show t: "snapshotTimestamp hub (world idle) = 1667455120"
    by (simp add: snapshotTimestamp_def hub_def idle_def SYNC_THRESHOLD_IN_SECONDS_def)
  have d: "digit (Suc 0) = CHR ''1''" "digit 2 = CHR ''2''" "digit 4 = CHR ''4''" "digit 5 = CHR ''5''"
    "digit 6 = CHR ''6''" "digit 7 = CHR ''7''"
    by (code_simp+)
  have p: "div10_toString 1667455120 = ''166745512''"
    by (simp add: div10_toString_def Let_def digits_small digits_big d)
  have "snapshot hub (world idle) = getSnapshot local_trie (world idle) ''166745512''"
    by (simp add: snapshot_def t p) (simp add: hub_def)
  then show "snapshot_prefix (snapshot hub (world idle)) = ''166745512''"
    by (simp add: local_trie_def)
  show "div10_toString 1667455125 = ''166745512.5''"
    by (simp add: div10_toString_def Let_def digits_small digits_big d)
qed

lemma index_Some: "index xs i = Some v \<longleftrightarrow> i < length xs \<and> xs ! i = v"
  by (induction xs i rule: index.induct) auto

lemma every_from_nth:
  "every_from k p xs \<longleftrightarrow> (\<forall>j < length xs. p (xs ! j) (k + j))"
proof (induction xs arbitrary: k)
  case Nil
  show ?case by simp
next
  case (Cons x xs)
  show ?case by (simp add: Cons.IH All_less_Suc2)
qed

lemma excludedHashesMatch_eq:
  "(length ours = length theirs \<and> every (\<lambda>value i. index theirs i = Some value) ours)
   \<longleftrightarrow> ours = theirs"
proof
  assume a: "length ours = length theirs \<and> every (\<lambda>value i. index theirs i = Some value) ours"
  then have "\<forall>j < length ours. theirs ! j = ours ! j"
    by (simp add: every_def every_from_nth index_Some)
  with a show "ours = theirs" by (simp add: nth_equalityI)
next
  assume "ours = theirs"
  then show "length ours = length theirs \<and> every (\<lambda>value i. index theirs i = Some value) ours"
    by (simp add: every_def every_from_nth index_Some)
qed

text \<open>
  Claim C2. For every list of the peer's excluded hashes, shouldSync returns false while
  \<open>_isSyncing\<close> is set; otherwise it returns true exactly when the excludedHashes of our
  snapshot and the peer's list are not the same list (they differ in length or at some
  index).
\<close>

theorem shouldSync_result:
  "(isSyncing s \<longrightarrow> \<not> fst (shouldSync se theirs s)) \<and>
   (\<not> isSyncing s \<longrightarrow>
      (fst (shouldSync se theirs s) \<longleftrightarrow> excludedHashes (snapshot se (world s)) \<noteq> theirs))"
  by (simp add: shouldSync_def Let_def excludedHashesMatch_eq)

theorem shouldSync_result_witness:
  "isSyncing busy \<and> \<not> fst (shouldSync hub [''e0''] busy) \<and>
   \<not> isSyncing idle \<and> fst (shouldSync hub [''e0''] idle) \<and>
   excludedHashes (snapshot hub (world idle)) = [''e0'', ''e1''] \<and>
   \<not> fst (shouldSync hub [''e0'', ''e1''] idle)"
  using shouldSync_result [of busy hub "[''e0'']"] shouldSync_result [of idle hub "[''e0'']"]
    shouldSync_result [of idle hub "[''e0'', ''e1'']"]
  by (simp add: busy_def idle_def hub_def local_trie_def snapshot_def)

section \<open>Properties of fetchAndMergeMessages\<close>

text \<open>
  Claim C7. On an empty list of hashes fetchAndMergeMessages returns false and leaves the
  state as it was: the world is untouched and the history has no new entry, so no
  \<open>getMessagesByHashes\<close> request went to the peer.
\<close>

theorem fetchAndMergeMessages_empty:
  "fetchAndMergeMessages se rpcClient [] s = (Inr False, s)"
  by (simp add: fetchAndMergeMessages_def)

section \<open>Awaited calls\<close>

lemma await_unfold:
  "await who call mk s =
     (fst (call (world s)),
      s\<lparr>world := snd (call (world s)),
        history := history s @ [\<lparr>caller = who, syncing = isSyncing s, ev = mk (fst (call (world s)))\<rparr>]\<rparr>)"
  by (simp add: await_def record_event_def split: prod.splits)

lemma map_sum_unit [simp]:
  "map_sum f id out = Inr () \<longleftrightarrow> out = Inr ()"
  "map_sum f id out = Inl y \<longleftrightarrow> (\<exists>x. out = Inl x \<and> y = f x)"
  by (cases out; auto)+

lemma resolvesD:
  assumes "resolves se rpcClient"
  shows "fst (getSyncMetadataByPrefix rpcClient p w) \<noteq> Inl e"
    and "fst (getSyncIdsByPrefix rpcClient p w) \<noteq> Inl e"
    and "fst (getMessagesByHashes rpcClient hs w) \<noteq> Inl e"
    and "fst (getCustodyEventByUser rpcClient f w) \<noteq> Inl e"
    and "fst (getAllSignerMessagesByUser rpcClient f w) \<noteq> Inl e"
    and "fst (mergeMessage (engine se) m src w) \<noteq> Inl e"
    and "fst (mergeMessages (engine se) ms src w) \<noteq> Inl e"
    and "fst (mergeIdRegistryEvent (engine se) c src w) \<noteq> Inl e"
  using assms unfolding resolves_def by (metis sum.disc(1))+

lemma steps_refl [simp]: "steps s s"
  by (simp add: steps_def)


lemma steps_record [simp]: "steps s (record_event who e s)"
  by (simp add: steps_def record_event_def)



lemma replay_append:
  "replay se rpcClient (a @ b) w =
     (case replay se rpcClient a w of None \<Rightarrow> None | Some w1 \<Rightarrow> replay se rpcClient b w1)"
  by (induction a arbitrary: w) (auto split: option.splits)

lemma genuine_refl [simp]: "genuine se rpcClient s s"
  by (simp add: genuine_def)

lemma genuine_trans:
  "genuine se rpcClient a b \<Longrightarrow> genuine se rpcClient b c \<Longrightarrow> genuine se rpcClient a c"
  by (auto simp: genuine_def replay_append)

lemma genuine_log [simp]: "genuine se rpcClient s (logLine who l p t s)"
  by (simp add: genuine_def logLine_def record_event_def)

lemma genuine_enter [simp]: "genuine se rpcClient s (record_event who (Enter who' m) s)"
  by (simp add: genuine_def record_event_def)

lemma genuine_await:
  assumes "await who call mk s = (r, s')"
    and "perform se rpcClient (mk (fst (call (world s)))) (world s) = Some (snd (call (world s)))"
  shows "genuine se rpcClient s s'"
  using assms by (auto simp: await_unfold genuine_def)

lemmas net_defs = hub_def peer_def storage_def broken_storage_def hub_broken_def local_trie_def
  idle_def msg_def merge_net_def leaf_def their_node_def peer_down_def peer_mixed_def

lemmas run_defs = fetchAndMergeMessages_def syncUserAndRetryMessage_def await_def record_event_def
  logLine_def Let_def performSync_def performSync_try_def snapshot_def fetchMissingHashesByNode.simps
  HASHES_PER_FETCH_def ourChildHash_def

section \<open>Properties of fetchMissingHashesByNode\<close>

declare fetchMissingHashesByNode.simps [simp del]

lemma wanted_iff:
  "wanted ourNode (c, theirChild) \<longleftrightarrow> ourChildHash ourNode c \<noteq> Some (node_hash theirChild)"
  by (auto simp: wanted_def ourChild_def ourChildHash_def split: option.splits)

lemma forChildren_accumulate:
  "forChildren n se rpcClient ourNode cs acc s =
     accumulate n se rpcClient (map (prefix \<circ> snd) (filter (wanted ourNode) cs)) acc s"
proof (induction cs arbitrary: acc s)
  case Nil
  show ?case by simp
next
  case (Cons c cs)
  obtain k theirChild where c: "c = (k, theirChild)" by (cases c)
  show ?case
    unfolding c
    by (simp add: wanted_iff Cons.IH split: option.splits prod.splits sum.splits)
qed

text \<open>
  Claim C1. For every node metadata of the peer: if its numMessages is at most
  HASHES_PER_FETCH = 50, fetchMissingHashesByNode returns after a single request to the
  peer, \<open>getSyncIdsByPrefix\<close> of the node's prefix, with all the ids the request yields
  (none if it resolves to an error; a rejection is passed on), and asks for the metadata of
  no child. Otherwise it enters, through fetchMissingHashesByPrefix and in the order of the
  peer's children, exactly the children for which our node has no child under that key or
  has one with another hash, and returns what they return, accumulated.
\<close>

theorem fetchMissingHashesByNode_cases:
  "(numMessages theirNode \<le> HASHES_PER_FETCH \<longrightarrow>
      (\<exists>out s'. fetchMissingHashesByNode n se rpcClient theirNode ourNode s = Some (out, s') \<and>
         requests (drop (length (history s)) (history s')) =
           [GetSyncIdsByPrefix (prefix theirNode)
              (fst (getSyncIdsByPrefix rpcClient (prefix theirNode) (world s)))] \<and>
         out = (case fst (getSyncIdsByPrefix rpcClient (prefix theirNode) (world s)) of
                  Inl e \<Rightarrow> Inl e
                | Inr (Inl err) \<Rightarrow> Inr []
                | Inr (Inr ids) \<Rightarrow> Inr ids))) \<and>
   (\<not> numMessages theirNode \<le> HASHES_PER_FETCH \<longrightarrow>
      fetchMissingHashesByNode n se rpcClient theirNode ourNode s =
        accumulate n se rpcClient
          (map (prefix \<circ> snd)
             (filter (wanted ourNode) (case children theirNode of None \<Rightarrow> [] | Some cs \<Rightarrow> cs)))
          [] s)"
proof (intro conjI impI)
  assume small: "numMessages theirNode \<le> HASHES_PER_FETCH"
  show "\<exists>out s'. fetchMissingHashesByNode n se rpcClient theirNode ourNode s = Some (out, s') \<and>
         requests (drop (length (history s)) (history s')) =
           [GetSyncIdsByPrefix (prefix theirNode)
              (fst (getSyncIdsByPrefix rpcClient (prefix theirNode) (world s)))] \<and>
         out = (case fst (getSyncIdsByPrefix rpcClient (prefix theirNode) (world s)) of
                  Inl e \<Rightarrow> Inl e
                | Inr (Inl err) \<Rightarrow> Inr []
                | Inr (Inr ids) \<Rightarrow> Inr ids)"
    using small
    by (simp add: fetchMissingHashesByNode.simps await_unfold requests_def logLine_def record_event_def
        split: sum.splits)
next
  assume big: "\<not> numMessages theirNode \<le> HASHES_PER_FETCH"
  show "fetchMissingHashesByNode n se rpcClient theirNode ourNode s =
        accumulate n se rpcClient
          (map (prefix \<circ> snd)
             (filter (wanted ourNode) (case children theirNode of None \<Rightarrow> [] | Some cs \<Rightarrow> cs)))
          [] s"
    using big
    by (simp add: fetchMissingHashesByNode.simps forChildren_accumulate split: option.splits)
qed

theorem fetchMissingHashesByNode_cases_witness:
  "numMessages (leaf ''000000101'' 2 ''hy'') \<le> HASHES_PER_FETCH \<and>
   (\<exists>s'. fetchMissingHashesByNode 0 hub peer (leaf ''000000101'' 2 ''hy'') None idle =
            Some (Inr [''aa'', ''bb''], s') \<and>
         requests (history s') = [GetSyncIdsByPrefix ''000000101'' (Inr (Inr [''aa'', ''bb'']))]) \<and>
   \<not> numMessages their_node \<le> HASHES_PER_FETCH \<and>
   fetchMissingHashesByNode (Suc 0) hub peer their_node
       (getTrieNodeMetadata local_trie (world idle) ''00000010'') idle =
     accumulate (Suc 0) hub peer [''000000101''] [] idle \<and>
   (\<exists>s'. accumulate (Suc 0) hub peer [''000000101''] [] idle = Some (Inr [''aa'', ''bb''], s'))"
proof -
  have small: "numMessages (leaf ''000000101'' 2 ''hy'') \<le> HASHES_PER_FETCH"
    by (simp add: leaf_def HASHES_PER_FETCH_def)
  have big: "\<not> numMessages their_node \<le> HASHES_PER_FETCH"
    by (simp add: their_node_def HASHES_PER_FETCH_def)
  have ids: "fst (getSyncIdsByPrefix peer (prefix (leaf ''000000101'' 2 ''hy'')) (world idle)) =
               Inr (Inr [''aa'', ''bb''])"
    by (simp add: peer_def leaf_def)
  have sel: "map (prefix \<circ> snd)
               (filter (wanted (getTrieNodeMetadata local_trie (world idle) ''00000010''))
                  (case children their_node of None \<Rightarrow> [] | Some cs \<Rightarrow> cs)) = [''000000101'']"
    by (simp add: wanted_def ourChild_def local_trie_def their_node_def leaf_def)
  have acc: "\<exists>s'. accumulate (Suc 0) hub peer [''000000101''] [] idle = Some (Inr [''aa'', ''bb''], s')"
    by (simp add: net_defs run_defs)
  from fetchMissingHashesByNode_cases [of "leaf ''000000101'' 2 ''hy''" 0 hub peer None idle] small ids
  have a: "\<exists>s'. fetchMissingHashesByNode 0 hub peer (leaf ''000000101'' 2 ''hy'') None idle =
            Some (Inr [''aa'', ''bb''], s') \<and>
         requests (history s') = [GetSyncIdsByPrefix ''000000101'' (Inr (Inr [''aa'', ''bb'']))]"
    by (auto simp: idle_def leaf_def)
  from fetchMissingHashesByNode_cases [of their_node "Suc 0" hub peer
         "getTrieNodeMetadata local_trie (world idle) ''00000010''" idle] big sel
  have b: "fetchMissingHashesByNode (Suc 0) hub peer their_node
       (getTrieNodeMetadata local_trie (world idle) ''00000010'') idle =
     accumulate (Suc 0) hub peer [''000000101''] [] idle"
    by simp
  from small a big b acc show ?thesis by blast
qed

text \<open>
  The fuel only bounds the walk: a run that returns with some fuel returns the same with
  more.
\<close>

lemma fuel_mono:
  "fetchMissingHashesByPrefix n se rpcClient p s = Some x \<Longrightarrow>
     fetchMissingHashesByPrefix (Suc n) se rpcClient p s = Some x"
  "fetchMissingHashesByNode n se rpcClient theirNode ourNode s = Some x \<Longrightarrow>
     fetchMissingHashesByNode (Suc n) se rpcClient theirNode ourNode s = Some x"
  "forChildren n se rpcClient ourNode cs acc s = Some x \<Longrightarrow>
     forChildren (Suc n) se rpcClient ourNode cs acc s = Some x"
proof (induction n se rpcClient p s and n se rpcClient theirNode ourNode s
         and n se rpcClient ourNode cs acc s arbitrary: x and x and x
         rule: fetchMissingHashesByPrefix_fetchMissingHashesByNode_forChildren.induct)
  case (1 se rpcClient pfx s)
  then show ?case by simp
next
  case (2 n se rpcClient pfx s)
  obtain out s1 where aw: "await ''fetchMissingHashesByPrefix'' (getSyncMetadataByPrefix rpcClient pfx)
             (GetSyncMetadataByPrefix pfx) s = (out, s1)"
    by (cases "await ''fetchMissingHashesByPrefix'' (getSyncMetadataByPrefix rpcClient pfx)
             (GetSyncMetadataByPrefix pfx) s") auto
  show ?case
  proof (cases out)
    case (Inl e)
    with "2.prems" aw show ?thesis by simp
  next
    case (Inr res)
    show ?thesis
    proof (cases res)
      case (Inl err)
      with "2.prems" aw Inr show ?thesis by simp
    next
      case node: (Inr theirNode)
      with "2.prems" aw Inr have
        "fetchMissingHashesByNode n se rpcClient theirNode (getTrieNodeMetadata (trie se) (world s) pfx) s1 = Some x"
        by simp
      from "2.IH" [OF refl aw [symmetric] Inr node this] aw Inr node show ?thesis
        by simp
    qed
  qed
next
  case (3 n se rpcClient theirNode ourNode s)
  show ?case
  proof (cases "numMessages theirNode \<le> HASHES_PER_FETCH")
    case True
    with "3.prems" show ?thesis by (simp add: fetchMissingHashesByNode.simps)
  next
    case False
    show ?thesis
    proof (cases "children theirNode")
      case None
      with "3.prems" False show ?thesis by (simp add: fetchMissingHashesByNode.simps)
    next
      case (Some cs)
      with "3.prems" False have "forChildren n se rpcClient ourNode cs [] s = Some x"
        by (simp add: fetchMissingHashesByNode.simps)
      from "3.IH" [OF False Some this] False Some show ?thesis
        by (simp add: fetchMissingHashesByNode.simps)
    qed
  qed
next
  case (4 n se rpcClient ourNode missingHashes s)
  then show ?case by simp
next
  case (5 n se rpcClient ourNode theirChildChar theirChild rest missingHashes s)
  show ?case
  proof (cases "ourChildHash ourNode theirChildChar \<noteq> Some (node_hash theirChild)")
    case False
    with "5.prems" have "forChildren n se rpcClient ourNode rest missingHashes s = Some x"
      by simp
    from "5.IH"(3) [OF False this] False show ?thesis by simp
  next
    case True
    from "5.prems" True obtain out s1 where
      walk: "fetchMissingHashesByPrefix n se rpcClient (prefix theirChild) s = Some (out, s1)"
      by (cases "fetchMissingHashesByPrefix n se rpcClient (prefix theirChild) s") auto
    note more = "5.IH"(1) [OF True walk]
    show ?thesis
    proof (cases out)
      case (Inl e)
      with "5.prems" True walk more show ?thesis by (auto simp del: fetchMissingHashesByPrefix.simps)
    next
      case (Inr hs)
      with "5.prems" True walk
      have "forChildren n se rpcClient ourNode rest (missingHashes @ hs) s1 = Some x"
        by simp
      from "5.IH"(2) [OF True walk refl Inr this] True more Inr show ?thesis
        by (simp del: fetchMissingHashesByPrefix.simps)
    qed
  qed
qed

text \<open>With fuel above the rank of the prefix, the walk of a trie that has an end returns.\<close>

lemma forChildren_returns:
  assumes "\<And>p s. rank p < n \<Longrightarrow> fetchMissingHashesByPrefix n se rpcClient p s \<noteq> None"
    and "\<forall>(c, child) \<in> set cs. rank (prefix child) < n"
  shows "forChildren n se rpcClient ourNode cs acc s \<noteq> None"
  using assms(2)
proof (induction cs arbitrary: acc s)
  case Nil
  show ?case by simp
next
  case (Cons x cs)
  obtain c child where x: "x = (c, child)" by (cases x)
  from Cons.prems x have r: "rank (prefix child) < n" and rest: "\<forall>(c, child) \<in> set cs. rank (prefix child) < n"
    by auto
  from assms(1) [OF r, of s] obtain y where y: "fetchMissingHashesByPrefix n se rpcClient (prefix child) s = Some y"
    by blast
  show ?case
    unfolding x using y Cons.IH [OF rest]
    by (cases y) (auto split: sum.splits simp del: fetchMissingHashesByPrefix.simps)
qed

lemma walk_returns:
  assumes "descends rank rpcClient"
  shows "rank p < n \<Longrightarrow> fetchMissingHashesByPrefix n se rpcClient p s \<noteq> None"
proof (induction n arbitrary: p s)
  case 0
  then show ?case by simp
next
  case (Suc n)
  obtain out s1 where aw: "await ''fetchMissingHashesByPrefix'' (getSyncMetadataByPrefix rpcClient p)
             (GetSyncMetadataByPrefix p) s = (out, s1)"
    by (cases "await ''fetchMissingHashesByPrefix'' (getSyncMetadataByPrefix rpcClient p)
             (GetSyncMetadataByPrefix p) s") auto
  then have out: "out = fst (getSyncMetadataByPrefix rpcClient p (world s))"
    by (simp add: await_unfold)
  show ?case
  proof (cases out)
    case (Inl e)
    with aw show ?thesis by simp
  next
    case (Inr res)
    show ?thesis
    proof (cases res)
      case (Inl err)
      with aw Inr show ?thesis by simp
    next
      case node: (Inr theirNode)
      have "fetchMissingHashesByNode n se rpcClient theirNode
              (getTrieNodeMetadata (trie se) (world s) p) s1 \<noteq> None"
      proof (cases "numMessages theirNode \<le> HASHES_PER_FETCH")
        case True
        then show ?thesis
          by (simp add: fetchMissingHashesByNode.simps split: prod.splits sum.splits)
      next
        case False
        show ?thesis
        proof (cases "children theirNode")
          case None
          with False show ?thesis by (simp add: fetchMissingHashesByNode.simps)
        next
          case (Some cs)
          have "\<forall>(c, child) \<in> set cs. rank (prefix child) < n"
            using assms Some out Inr node Suc.prems
            unfolding descends_def by fastforce
          from forChildren_returns [of rank n se rpcClient cs, OF Suc.IH this] False Some
          show ?thesis by (simp add: fetchMissingHashesByNode.simps)
        qed
      qed
      with aw Inr node show ?thesis by simp
    qed
  qed
qed

lemma peer_descends: "descends (\<lambda>p. 9 - length p) peer"
  by (auto simp: descends_def peer_def their_node_def leaf_def split: if_splits)


section \<open>Properties of syncUserAndRetryMessage\<close>

lemma retry_shape:
  assumes "syncUserAndRetryMessage se rpcClient message s = (r, s')"
  shows "\<exists>tr. history s' = history s @ tr \<and> retryRun message (map ev tr) r"
  using assms
  unfolding syncUserAndRetryMessage_def Let_def await_unfold record_event_def retryRun_def
  by (simp split: sum.splits if_splits) force+

lemma merges_append [simp]: "merges (a @ b) = merges a @ merges b"
  by (induction a) auto

lemma entered_append [simp]: "entered (a @ b) = entered a @ entered b"
  by (induction a rule: entered.induct) auto

lemma hashRequests_append [simp]: "hashRequests (a @ b) = hashRequests a @ hashRequests b"
  by (induction a rule: hashRequests.induct) auto

lemma merges_other_caller:
  "list_all (\<lambda>e. caller e \<noteq> ''fetchAndMergeMessages'') tr \<Longrightarrow> merges tr = []"
  by (induction tr) (auto split: event.splits)

lemma retry_entries:
  assumes "syncUserAndRetryMessage se rpcClient message s = (r, s')"
  shows "\<exists>tr. history s' = history s @ tr \<and> isSyncing s' = isSyncing s \<and>
           list_all (\<lambda>e. caller e = ''syncUserAndRetryMessage'' \<and> syncing e = isSyncing s) tr \<and>
           entered (map ev tr) = [message] \<and> hashRequests (map ev tr) = []"
  using assms
  unfolding syncUserAndRetryMessage_def Let_def await_unfold record_event_def
  by (simp split: sum.splits if_splits) force+

lemma retry_resolves:
  assumes "resolves se rpcClient"
  shows "fst (syncUserAndRetryMessage se rpcClient message s) \<noteq> Inl e"
  unfolding syncUserAndRetryMessage_def Let_def await_unfold
  by (simp split: sum.splits if_splits add: resolvesD [OF assms])

lemma retry_resolves_pair:
  assumes "resolves se rpcClient"
  shows "syncUserAndRetryMessage se rpcClient message s \<noteq> (Inl e, s')"
  using retry_resolves [OF assms, of message s e] by auto

lemma genuine_retry:
  assumes "syncUserAndRetryMessage se rpcClient message s = (r, s')"
  shows "genuine se rpcClient s s'"
  using assms
  unfolding syncUserAndRetryMessage_def Let_def await_unfold record_event_def genuine_def
  by (simp split: sum.splits if_splits) force+

lemma retry_observed:
  assumes "retryRun message (map ev tr) r"
  shows "(failsWith ''unavailable.network_failure'' r \<longleftrightarrow>
        (\<exists>e. GetCustodyEventByUser (fid (data message)) (Inr (Inl e)) \<in> set (map ev tr)) \<or>
        (\<exists>e. GetAllSignerMessagesByUser (fid (data message)) (Inr (Inl e)) \<in> set (map ev tr))) \<and>
     (\<forall>ms results.
        MergeMessages ms ''SyncEngine'' (Inr results) \<in> set (map ev tr) \<and> list_all isl results \<longrightarrow>
        r = Inr (Inl (HubError ''unavailable.storage_failure'' (Text ''Failed to merge signer messages'')))) \<and>
     (\<forall>e. MergeMessage message ''SyncEngine'' (Inr (Inl e)) \<in> set (map ev tr) \<longrightarrow>
        r = Inr (Inl (HubError ''unavailable.storage_failure'' (Cause e)))) \<and>
     (r = Inr (Inr ()) \<longleftrightarrow> MergeMessage message ''SyncEngine'' (Inr (Inr ())) \<in> set (map ev tr)) \<and>
     (\<forall>x. r = Inl x \<longleftrightarrow> Some x \<in> rejection ` set (map ev tr)) \<and>
     (failsWith ''unavailable.network_failure'' r \<or> failsWith ''unavailable.storage_failure'' r \<or>
      r = Inr (Inr ()) \<or> (\<exists>x. r = Inl x)) \<and>
     (failsWith ''unavailable.storage_failure'' r \<longleftrightarrow>
        (\<exists>ms results. MergeMessages ms ''SyncEngine'' (Inr results) \<in> set (map ev tr) \<and>
           list_all isl results) \<or>
        (\<exists>e. MergeMessage message ''SyncEngine'' (Inr (Inl e)) \<in> set (map ev tr))) \<and>
     (\<forall>ms results.
        MergeMessages ms ''SyncEngine'' (Inr results) \<in> set (map ev tr) \<and> \<not> list_all isl results \<longrightarrow>
        (\<exists>out. MergeMessage message ''SyncEngine'' out \<in> set (map ev tr)))"
  using assms unfolding retryRun_def
proof (elim disjE exE conjE)
  fix c i ms rs out
  assume "map ev tr = [Enter ''syncUserAndRetryMessage'' message,
                  GetCustodyEventByUser (fid (data message)) (Inr (Inr c)),
                  MergeIdRegistryEvent c ''SyncEngine'' (Inr i),
                  GetAllSignerMessagesByUser (fid (data message)) (Inr (Inr ms)),
                  MergeMessages ms ''SyncEngine'' (Inr rs),
                  MergeMessage message ''SyncEngine'' (Inr out)]"
    and "\<not> list_all isl rs"
    and "r = Inr (map_sum (\<lambda>e. HubError ''unavailable.storage_failure'' (Cause e)) id out)"
  then show ?thesis
    by (cases out) (auto simp: failsWith_def)
qed (auto simp: failsWith_def)

text \<open>
  Claim C5. The result of syncUserAndRetryMessage is an \<open>unavailable.network_failure\<close>
  error exactly when the request for the custody event or the one for the signer messages
  resolved to an error. It is an \<open>unavailable.storage_failure\<close> error exactly when every
  result of merging the signer messages is an error (also when there is none), or when the
  retried merge of the message resolves to an error, which the error wraps. Otherwise, that
  is when some signer merge succeeded, the merge of the message is retried, and the result
  is \<open>ok\<close> exactly when the retry resolved to \<open>ok\<close>. A rejected call rejects the method;
  there is no other way out. The run is one of the nine of \<open>retryRun\<close>, every call in it
  was made on the collaborators, each on the world the one before left, it settled to what
  the history records, and the world the method leaves is the one the last call left.
\<close>

theorem syncUserAndRetryMessage_result:
  assumes "syncUserAndRetryMessage se rpcClient message s = (r, s')"
  shows "\<exists>tr. history s' = history s @ tr \<and>
     (failsWith ''unavailable.network_failure'' r \<longleftrightarrow>
        (\<exists>e. GetCustodyEventByUser (fid (data message)) (Inr (Inl e)) \<in> set (map ev tr)) \<or>
        (\<exists>e. GetAllSignerMessagesByUser (fid (data message)) (Inr (Inl e)) \<in> set (map ev tr))) \<and>
     (\<forall>ms results.
        MergeMessages ms ''SyncEngine'' (Inr results) \<in> set (map ev tr) \<and> list_all isl results \<longrightarrow>
        r = Inr (Inl (HubError ''unavailable.storage_failure'' (Text ''Failed to merge signer messages'')))) \<and>
     (\<forall>e. MergeMessage message ''SyncEngine'' (Inr (Inl e)) \<in> set (map ev tr) \<longrightarrow>
        r = Inr (Inl (HubError ''unavailable.storage_failure'' (Cause e)))) \<and>
     (r = Inr (Inr ()) \<longleftrightarrow> MergeMessage message ''SyncEngine'' (Inr (Inr ())) \<in> set (map ev tr)) \<and>
     (\<forall>x. r = Inl x \<longleftrightarrow> Some x \<in> rejection ` set (map ev tr)) \<and>
     (failsWith ''unavailable.network_failure'' r \<or> failsWith ''unavailable.storage_failure'' r \<or>
      r = Inr (Inr ()) \<or> (\<exists>x. r = Inl x)) \<and>
     (failsWith ''unavailable.storage_failure'' r \<longleftrightarrow>
        (\<exists>ms results. MergeMessages ms ''SyncEngine'' (Inr results) \<in> set (map ev tr) \<and>
           list_all isl results) \<or>
        (\<exists>e. MergeMessage message ''SyncEngine'' (Inr (Inl e)) \<in> set (map ev tr))) \<and>
     (\<forall>ms results.
        MergeMessages ms ''SyncEngine'' (Inr results) \<in> set (map ev tr) \<and> \<not> list_all isl results \<longrightarrow>
        (\<exists>out. MergeMessage message ''SyncEngine'' out \<in> set (map ev tr))) \<and>
     retryRun message (map ev tr) r \<and>
     replay se rpcClient (map ev tr) (world s) = Some (world s') \<and>
     isSyncing s' = isSyncing s \<and>
     list_all (\<lambda>e. caller e = ''syncUserAndRetryMessage'' \<and> syncing e = isSyncing s) tr"
proof -
  from retry_shape [OF assms] obtain tr where h: "history s' = history s @ tr"
    and c: "retryRun message (map ev tr) r"
    by blast
  note o = retry_observed [OF c]
  from genuine_retry [OF assms] h
  have g: "replay se rpcClient (map ev tr) (world s) = Some (world s')"
    by (auto simp: genuine_def)
  from retry_entries [OF assms] h
  have t: "isSyncing s' = isSyncing s"
    "list_all (\<lambda>e. caller e = ''syncUserAndRetryMessage'' \<and> syncing e = isSyncing s) tr"
    by auto
  from h o c g t show ?thesis
    by (elim conjE) (rule exI [of _ tr], (intro conjI; assumption))
qed

lemma resolves_hub: "resolves hub peer"
  by (simp add: resolves_def net_defs split: IdRegistryEvent.splits)

lemma resolves_hub_broken: "resolves hub_broken peer"
  by (simp add: resolves_def net_defs)

theorem syncUserAndRetryMessage_result_witness:
  "fst (syncUserAndRetryMessage hub peer (msg 7 ''aa'') idle) = Inr (Inr ()) \<and>
   MergeMessage (msg 7 ''aa'') ''SyncEngine'' (Inr (Inr ()))
     \<in> set (map ev (history (snd (syncUserAndRetryMessage hub peer (msg 7 ''aa'') idle)))) \<and>
   replay hub peer (map ev (history (snd (syncUserAndRetryMessage hub peer (msg 7 ''aa'') idle))))
     (world idle) = Some (world (snd (syncUserAndRetryMessage hub peer (msg 7 ''aa'') idle))) \<and>
   known (world (snd (syncUserAndRetryMessage hub peer (msg 7 ''aa'') idle))) = [7] \<and>
   MergeMessages [msg 7 ''signer''] ''SyncEngine'' (Inr [Inl (EngineError 500 ''disk'')])
     \<in> set (map ev (history (snd (syncUserAndRetryMessage hub_broken peer (msg 7 ''aa'') idle)))) \<and>
   fst (syncUserAndRetryMessage hub_broken peer (msg 7 ''aa'') idle) =
     Inr (Inl (HubError ''unavailable.storage_failure'' (Text ''Failed to merge signer messages''))) \<and>
   MergeMessages [msg 8 ''other'', msg 7 ''signer''] ''SyncEngine''
       (Inr [Inl (EngineError 412 ''unknown user''), Inr ()])
     \<in> set (map ev (history (snd (syncUserAndRetryMessage hub peer_mixed (msg 7 ''aa'') idle)))) \<and>
   fst (syncUserAndRetryMessage hub peer_mixed (msg 7 ''aa'') idle) = Inr (Inr ())"
proof -
  obtain r s' where run: "syncUserAndRetryMessage hub peer (msg 7 ''aa'') idle = (r, s')"
    by (cases "syncUserAndRetryMessage hub peer (msg 7 ''aa'') idle") auto
  have r: "r = Inr (Inr ())" using run by (simp add: net_defs run_defs)
  have k: "known (world s') = [7]" using run by (auto simp: net_defs run_defs)
  from syncUserAndRetryMessage_result [OF run]
  have "\<exists>tr. history s' = history idle @ tr \<and>
          (r = Inr (Inr ()) \<longleftrightarrow> MergeMessage (msg 7 ''aa'') ''SyncEngine'' (Inr (Inr ())) \<in> set (map ev tr)) \<and>
          replay hub peer (map ev tr) (world idle) = Some (world s')"
    by (elim exE conjE) (rule exI, (intro conjI; assumption))
  then obtain tr where h: "history s' = history idle @ tr"
    and a0: "r = Inr (Inr ()) \<longleftrightarrow> MergeMessage (msg 7 ''aa'') ''SyncEngine'' (Inr (Inr ())) \<in> set (map ev tr)"
    and g0: "replay hub peer (map ev tr) (world idle) = Some (world s')"
    by blast
  from h have tr: "tr = history s'" by (simp add: idle_def)
  from a0 r tr
  have a: "MergeMessage (msg 7 ''aa'') ''SyncEngine'' (Inr (Inr ())) \<in> set (map ev (history s'))"
    by simp
  from g0 tr have g: "replay hub peer (map ev (history s')) (world idle) = Some (world s')"
    by simp
  obtain r2 s2 where run2: "syncUserAndRetryMessage hub_broken peer (msg 7 ''aa'') idle = (r2, s2)"
    by (cases "syncUserAndRetryMessage hub_broken peer (msg 7 ''aa'') idle") auto
  have m: "MergeMessages [msg 7 ''signer''] ''SyncEngine'' (Inr [Inl (EngineError 500 ''disk'')])
             \<in> set (map ev (history s2))"
    using run2 by (auto simp: net_defs run_defs)
  from syncUserAndRetryMessage_result [OF run2]
  have "\<exists>tr. history s2 = history idle @ tr \<and>
     (\<forall>ms results.
        MergeMessages ms ''SyncEngine'' (Inr results) \<in> set (map ev tr) \<and> list_all isl results \<longrightarrow>
        r2 = Inr (Inl (HubError ''unavailable.storage_failure'' (Text ''Failed to merge signer messages''))))"
    by (elim exE conjE) (rule exI, (intro conjI; assumption))
  then obtain tr2 where
    h2: "history s2 = history idle @ tr2"
    and f: "\<forall>ms results. MergeMessages ms ''SyncEngine'' (Inr results) \<in> set (map ev tr2) \<and> list_all isl results \<longrightarrow>
        r2 = Inr (Inl (HubError ''unavailable.storage_failure'' (Text ''Failed to merge signer messages'')))"
    by blast
  from h2 have "tr2 = history s2" by (simp add: idle_def)
  with f m have b: "r2 = Inr (Inl (HubError ''unavailable.storage_failure'' (Text ''Failed to merge signer messages'')))"
    by fastforce
  obtain r3 s3 where run3: "syncUserAndRetryMessage hub peer_mixed (msg 7 ''aa'') idle = (r3, s3)"
    by (cases "syncUserAndRetryMessage hub peer_mixed (msg 7 ''aa'') idle") auto
  have m3: "MergeMessages [msg 8 ''other'', msg 7 ''signer''] ''SyncEngine''
       (Inr [Inl (EngineError 412 ''unknown user''), Inr ()]) \<in> set (map ev (history s3))"
    using run3 by (auto simp: net_defs run_defs)
  have r3: "r3 = Inr (Inr ())" using run3 by (simp add: net_defs run_defs)
  from run r a g k run2 m b run3 m3 r3 show ?thesis by simp
qed

section \<open>Properties of the merge loop\<close>

lemma list_all_syncing_cong:
  "list_all (\<lambda>e. caller e = who \<and> syncing e = b) tr \<Longrightarrow> list_all (\<lambda>e. syncing e = b) tr"
  by (induction tr) auto

lemma retry_no_merges:
  "list_all (\<lambda>e. caller e = ''syncUserAndRetryMessage'' \<and> syncing e = b) tr \<Longrightarrow> merges tr = []"
  by (rule merges_other_caller) (induction tr, auto)

lemma forMsgs_run:
  "forMsgs se rpcClient msgs acc s = (r, s') \<Longrightarrow>
   \<exists>tr. history s' = history s @ tr \<and> isSyncing s' = isSyncing s \<and>
        list_all (\<lambda>e. syncing e = isSyncing s) tr \<and>
        map fst (merges tr) = take (length (merges tr)) msgs \<and>
        list_all (\<lambda>x. fst (snd x) = ''SyncEngine'') (merges tr) \<and>
        entered (map ev tr) = map fst (filter (\<lambda>x. unknownUser (snd (snd x))) (merges tr)) \<and>
        hashRequests (map ev tr) = [] \<and>
        (\<not> isl r \<longrightarrow> length (merges tr) = length msgs)"
proof (induction msgs arbitrary: acc s)
  case Nil
  then show ?case by auto
next
  case (Cons msg msgs)
  define out where "out = fst (mergeMessage (engine se) msg ''SyncEngine'' (world s))"
  define e1 where "e1 = \<lparr>caller = ''fetchAndMergeMessages'', syncing = isSyncing s,
                          ev = MergeMessage msg ''SyncEngine'' out\<rparr>"
  define s1 where "s1 = s\<lparr>world := snd (mergeMessage (engine se) msg ''SyncEngine'' (world s)),
                          history := history s @ [e1]\<rparr>"
  have aw: "await ''fetchAndMergeMessages'' (mergeMessage (engine se) msg ''SyncEngine'')
              (MergeMessage msg ''SyncEngine'') s = (out, s1)"
    by (simp add: await_unfold out_def s1_def e1_def)
  have s1: "history s1 = history s @ [e1]" "isSyncing s1 = isSyncing s"
    by (simp_all add: s1_def)
  have m1: "merges [e1] = [(msg, ''SyncEngine'', out)]" "entered (map ev [e1]) = []"
    "hashRequests (map ev [e1]) = []" "syncing e1 = isSyncing s"
    by (simp_all add: e1_def)
  show ?case
  proof (cases out)
    case (Inl e)
    with Cons.prems aw have "r = Inl e" "s' = s1" by auto
    with s1 m1 Inl show ?thesis
      by (intro exI [of _ "[e1]"]) (simp add: unknownUser_def)
  next
    case (Inr result)
    show ?thesis
    proof (cases "isl result \<and> statusCode (projl result) = 412")
      case True
      then have u: "unknownUser out" using Inr by (auto simp: unknownUser_def isl_def)
      define e2 where "e2 = \<lparr>caller = ''fetchAndMergeMessages'', syncing = isSyncing s,
            ev = Log Warn (Fields [(''fid'', Num (int (fid (data msg))))])
                   ''Unknown user, fetching custody event''\<rparr>"
      define s2 where "s2 = logLine ''fetchAndMergeMessages'' Warn (Fields [(''fid'', Num (int (fid (data msg))))])
                       ''Unknown user, fetching custody event'' s1"
      have s2: "history s2 = history s @ [e1, e2]" "isSyncing s2 = isSyncing s"
        by (simp_all add: s2_def logLine_def record_event_def s1 e2_def)
      obtain r3 s3 where run: "syncUserAndRetryMessage se rpcClient msg s2 = (r3, s3)"
        by (cases "syncUserAndRetryMessage se rpcClient msg s2") auto
      from retry_entries [OF run] obtain tr3 where
        t3: "history s3 = history s2 @ tr3" "isSyncing s3 = isSyncing s2"
          "list_all (\<lambda>e. caller e = ''syncUserAndRetryMessage'' \<and> syncing e = isSyncing s2) tr3"
          "entered (map ev tr3) = [msg]" "hashRequests (map ev tr3) = []"
        by blast
      have m3: "merges tr3 = []" "list_all (\<lambda>e. syncing e = isSyncing s) tr3"
        using t3(3) s2(2) retry_no_merges list_all_syncing_cong by fastforce+
      have m2: "merges [e2] = []" "entered (map ev [e2]) = []" "hashRequests (map ev [e2]) = []"
        "syncing e2 = isSyncing s"
        by (simp_all add: e2_def)
      show ?thesis
      proof (cases r3)
        case (Inl e)
        with Cons.prems aw Inr True run have "r = Inl e" "s' = s3"
          by (auto simp: s2_def)
        then show ?thesis
          using s2 t3 m1 m2 m3 u
          by (intro exI [of _ "[e1, e2] @ tr3"]) (simp add: e1_def e2_def)
      next
        case r3: (Inr result2)
        with Cons.prems aw Inr True run
        have rec: "forMsgs se rpcClient msgs (acc @ [map_sum Inr id result2]) s3 = (r, s')"
          by (auto simp: s2_def)
        from Cons.IH [OF rec] obtain tr where
          t: "history s' = history s3 @ tr" "isSyncing s' = isSyncing s3"
            "list_all (\<lambda>e. syncing e = isSyncing s3) tr"
            "map fst (merges tr) = take (length (merges tr)) msgs"
            "list_all (\<lambda>x. fst (snd x) = ''SyncEngine'') (merges tr)"
            "entered (map ev tr) = map fst (filter (\<lambda>x. unknownUser (snd (snd x))) (merges tr))"
            "hashRequests (map ev tr) = []"
            "\<not> isl r \<longrightarrow> length (merges tr) = length msgs"
          by blast
        show ?thesis
          using s2 t3 m1 m2 m3 u t
          by (intro exI [of _ "[e1, e2] @ tr3 @ tr"]) (simp add: e1_def e2_def)
      qed
    next
      case False
      then have u: "\<not> unknownUser out" using Inr by (cases result) (auto simp: unknownUser_def)
      from Cons.prems aw Inr False
      have rec: "forMsgs se rpcClient msgs (acc @ [map_sum Inl id result]) s1 = (r, s')"
        by auto
      from Cons.IH [OF rec] obtain tr where
        t: "history s' = history s1 @ tr" "isSyncing s' = isSyncing s1"
          "list_all (\<lambda>e. syncing e = isSyncing s1) tr"
          "map fst (merges tr) = take (length (merges tr)) msgs"
          "list_all (\<lambda>x. fst (snd x) = ''SyncEngine'') (merges tr)"
          "entered (map ev tr) = map fst (filter (\<lambda>x. unknownUser (snd (snd x))) (merges tr))"
          "hashRequests (map ev tr) = []"
          "\<not> isl r \<longrightarrow> length (merges tr) = length msgs"
        by blast
      show ?thesis
        using s1 m1 u t
        by (intro exI [of _ "[e1] @ tr"]) (simp add: e1_def)
    qed
  qed
qed

lemma forMsgs_resolves:
  assumes "resolves se rpcClient"
  shows "forMsgs se rpcClient msgs acc s \<noteq> (Inl e, s')"
proof (induction msgs arbitrary: acc s)
  case Nil
  show ?case by simp
next
  case (Cons msg msgs)
  show ?case
    using retry_resolves_pair [OF assms] Cons.IH
    by (auto simp: await_unfold resolvesD [OF assms] split: sum.splits prod.splits)
qed

lemma sequence_observed:
  assumes "hashes \<noteq> []" and "fetchAndMergeMessages se rpcClient hashes s = (r, s')"
  shows "\<exists>res tr.
     res = fst (getMessagesByHashes rpcClient (map ((@) ''0x'') hashes) (world s)) \<and>
     history s' = history s @
        \<lparr>caller = ''fetchAndMergeMessages'', syncing = isSyncing s,
          ev = GetMessagesByHashes (map ((@) ''0x'') hashes) res\<rparr> # tr \<and>
     hashRequests (map ev tr) = [] \<and>
     (\<forall>msgs. res = Inr (Inr msgs) \<longrightarrow>
        map fst (merges tr) = take (length (merges tr)) msgs \<and>
        (\<not> isl r \<longrightarrow> map fst (merges tr) = msgs)) \<and>
     ((\<forall>msgs. res \<noteq> Inr (Inr msgs)) \<longrightarrow> merges tr = []) \<and>
     list_all (\<lambda>x. fst (snd x) = ''SyncEngine'') (merges tr) \<and>
     entered (map ev tr) = map fst (filter (\<lambda>x. unknownUser (snd (snd x))) (merges tr)) \<and>
     (resolves se rpcClient \<longrightarrow> \<not> isl r)"
proof -
  define hs where "hs = map ((@) ''0x'') hashes"
  define res where "res = fst (getMessagesByHashes rpcClient hs (world s))"
  define e0 where "e0 = \<lparr>caller = ''fetchAndMergeMessages'', syncing = isSyncing s,
                          ev = GetMessagesByHashes hs res\<rparr>"
  define s1 where "s1 = s\<lparr>world := snd (getMessagesByHashes rpcClient hs (world s)),
                          history := history s @ [e0]\<rparr>"
  have aw: "await ''fetchAndMergeMessages'' (getMessagesByHashes rpcClient hs)
              (GetMessagesByHashes hs) s = (res, s1)"
    by (auto simp: await_unfold res_def s1_def e0_def split: sum.splits prod.splits)
  have s1: "history s1 = history s @ [e0]" "isSyncing s1 = isSyncing s"
    by (simp_all add: s1_def)
  have run: "(case res of
                Inl e \<Rightarrow> (Inl e, s1)
              | Inr (Inr msgs) \<Rightarrow>
                  (case forMsgs se rpcClient msgs [] s1 of
                     (Inl e, s2) \<Rightarrow> (Inl e, s2)
                   | (Inr mergeResults, s2) \<Rightarrow>
                       (Inr True,
                        logLine ''fetchAndMergeMessages'' Info
                          (Fields [(''messages'', Num (int (length mergeResults))),
                                   (''success'', Num (int (length (filter (\<lambda>r. \<not> isl r) mergeResults))))])
                          ''Merged messages'' s2))
              | Inr (Inl err) \<Rightarrow>
                  (Inr False,
                   logLine ''fetchAndMergeMessages'' Warn (Failure err)
                     ''Error fetching messages for sync'' s1)) = (r, s')"
    using assms unfolding fetchAndMergeMessages_def hs_def [symmetric]
    by (auto simp: await_unfold res_def s1_def e0_def split: sum.splits prod.splits)
  have "\<exists>tr. history s' = history s @ e0 # tr \<and>
     hashRequests (map ev tr) = [] \<and>
     (\<forall>msgs. res = Inr (Inr msgs) \<longrightarrow>
        map fst (merges tr) = take (length (merges tr)) msgs \<and>
        (\<not> isl r \<longrightarrow> map fst (merges tr) = msgs)) \<and>
     ((\<forall>msgs. res \<noteq> Inr (Inr msgs)) \<longrightarrow> merges tr = []) \<and>
     list_all (\<lambda>x. fst (snd x) = ''SyncEngine'') (merges tr) \<and>
     entered (map ev tr) = map fst (filter (\<lambda>x. unknownUser (snd (snd x))) (merges tr)) \<and>
     (resolves se rpcClient \<longrightarrow> \<not> isl r)"
  proof (cases res)
    case (Inl e)
    with run have "r = Inl e" "s' = s1" by auto
    moreover have "resolves se rpcClient \<Longrightarrow> False"
      using Inl resolvesD(3) [of se rpcClient hs "world s" e] by (simp add: res_def)
    ultimately show ?thesis using s1 Inl
      by (intro exI [of _ "[]"]) auto
  next
    case (Inr result)
    show ?thesis
    proof (cases result)
      case (Inl err)
      with Inr run have "r = Inr False"
        and "s' = logLine ''fetchAndMergeMessages'' Warn (Failure err)
                     ''Error fetching messages for sync'' s1"
        by auto
      then show ?thesis using s1 Inr Inl
        by (intro exI [of _ "[\<lparr>caller = ''fetchAndMergeMessages'', syncing = isSyncing s,
              ev = Log Warn (Failure err) ''Error fetching messages for sync''\<rparr>]"])
           (simp add: logLine_def record_event_def)
    next
      case msgs: (Inr msgs)
      obtain r2 s2 where loop: "forMsgs se rpcClient msgs [] s1 = (r2, s2)"
        by (cases "forMsgs se rpcClient msgs [] s1") auto
      from forMsgs_run [OF loop] obtain tr where
        t: "history s2 = history s1 @ tr" "isSyncing s2 = isSyncing s1"
          "map fst (merges tr) = take (length (merges tr)) msgs"
          "list_all (\<lambda>x. fst (snd x) = ''SyncEngine'') (merges tr)"
          "entered (map ev tr) = map fst (filter (\<lambda>x. unknownUser (snd (snd x))) (merges tr))"
          "hashRequests (map ev tr) = []"
          "\<not> isl r2 \<longrightarrow> length (merges tr) = length msgs"
        by blast
      show ?thesis
      proof (cases r2)
        case (Inl e)
        with Inr msgs run loop have "r = Inl e" "s' = s2" by auto
        moreover have "resolves se rpcClient \<Longrightarrow> False"
          using Inl loop forMsgs_resolves [of se rpcClient msgs "[]" s1 e s2] by simp
        ultimately show ?thesis using s1 t Inr msgs
          by (intro exI [of _ tr]) auto
      next
        case results: (Inr mergeResults)
        define e9 where "e9 = \<lparr>caller = ''fetchAndMergeMessages'', syncing = isSyncing s,
            ev = Log Info
                   (Fields [(''messages'', Num (int (length mergeResults))),
                            (''success'', Num (int (length (filter (\<lambda>r. \<not> isl r) mergeResults))))])
                   ''Merged messages''\<rparr>"
        from results Inr msgs run loop have "r = Inr True"
          and "history s' = history s2 @ [e9]"
          by (auto simp: logLine_def record_event_def e9_def t s1)
        moreover have "merges [e9] = []" "entered (map ev [e9]) = []" "hashRequests (map ev [e9]) = []"
          by (simp_all add: e9_def)
        moreover have "length (merges tr) = length msgs" using t results by simp
        ultimately show ?thesis using s1 t Inr msgs
          by (intro exI [of _ "tr @ [e9]"]) auto
      qed
    qed
  qed
  then show ?thesis unfolding e0_def res_def hs_def by blast
qed

lemma genuine_forMsgs:
  "forMsgs se rpcClient msgs acc s = (r, s') \<Longrightarrow> genuine se rpcClient s s'"
proof (induction msgs arbitrary: acc s)
  case Nil
  then show ?case by auto
next
  case (Cons msg msgs)
  obtain out s1 where aw: "await ''fetchAndMergeMessages'' (mergeMessage (engine se) msg ''SyncEngine'')
              (MergeMessage msg ''SyncEngine'') s = (out, s1)"
    by (cases "await ''fetchAndMergeMessages'' (mergeMessage (engine se) msg ''SyncEngine'')
              (MergeMessage msg ''SyncEngine'') s") auto
  have g1: "genuine se rpcClient s s1" by (rule genuine_await [OF aw]) simp
  show ?case
  proof (cases out)
    case (Inl e)
    with Cons.prems aw have "s' = s1" by auto
    with g1 show ?thesis by simp
  next
    case (Inr result)
    show ?thesis
    proof (cases "isl result \<and> statusCode (projl result) = 412")
      case True
      define s2 where "s2 = logLine ''fetchAndMergeMessages'' Warn (Fields [(''fid'', Num (int (fid (data msg))))])
                       ''Unknown user, fetching custody event'' s1"
      obtain r3 s3 where run: "syncUserAndRetryMessage se rpcClient msg s2 = (r3, s3)"
        by (cases "syncUserAndRetryMessage se rpcClient msg s2") auto
      have g3: "genuine se rpcClient s s3"
        using g1 genuine_log [of se rpcClient s1] genuine_retry [OF run]
        unfolding s2_def by (blast intro: genuine_trans)
      show ?thesis
      proof (cases r3)
        case (Inl e)
        with Cons.prems aw Inr True run have "s' = s3" by (auto simp: s2_def)
        with g3 show ?thesis by simp
      next
        case r3: (Inr result2)
        with Cons.prems aw Inr True run
        have "forMsgs se rpcClient msgs (acc @ [map_sum Inr id result2]) s3 = (r, s')"
          by (auto simp: s2_def)
        from Cons.IH [OF this] g3 show ?thesis by (blast intro: genuine_trans)
      qed
    next
      case False
      with Cons.prems aw Inr
      have "forMsgs se rpcClient msgs (acc @ [map_sum Inl id result]) s1 = (r, s')"
        by auto
      from Cons.IH [OF this] g1 show ?thesis by (blast intro: genuine_trans)
    qed
  qed
qed

lemma genuine_fetchAndMergeMessages:
  assumes "fetchAndMergeMessages se rpcClient hashes s = (r, s')"
  shows "genuine se rpcClient s s'"
proof (cases "hashes = []")
  case True
  with assms show ?thesis by (auto simp: fetchAndMergeMessages_def)
next
  case False
  obtain out s1 where aw: "await ''fetchAndMergeMessages''
                (getMessagesByHashes rpcClient (map ((@) ''0x'') hashes))
                (GetMessagesByHashes (map ((@) ''0x'') hashes)) s = (out, s1)"
    by (cases "await ''fetchAndMergeMessages''
                (getMessagesByHashes rpcClient (map ((@) ''0x'') hashes))
                (GetMessagesByHashes (map ((@) ''0x'') hashes)) s") auto
  have st: "genuine se rpcClient s s1" by (rule genuine_await [OF aw]) simp
  show ?thesis
  proof (cases out)
    case (Inl e)
    with assms False aw have "s' = s1" by (auto simp: fetchAndMergeMessages_def)
    with st show ?thesis by simp
  next
    case (Inr res)
    show ?thesis
    proof (cases res)
      case (Inl err)
      with assms False aw Inr
      have "s' = logLine ''fetchAndMergeMessages'' Warn (Failure err) ''Error fetching messages for sync'' s1"
        by (auto simp: fetchAndMergeMessages_def)
      with st show ?thesis using genuine_trans genuine_log by blast
    next
      case msgs: (Inr msgs)
      obtain r2 s2 where loop: "forMsgs se rpcClient msgs [] s1 = (r2, s2)"
        by (cases "forMsgs se rpcClient msgs [] s1") auto
      have st2: "genuine se rpcClient s s2" using st genuine_forMsgs [OF loop] genuine_trans by blast
      show ?thesis
      proof (cases r2)
        case (Inl e)
        with assms False aw Inr msgs loop have "s' = s2" by (auto simp: fetchAndMergeMessages_def)
        with st2 show ?thesis by simp
      next
        case (Inr mergeResults)
        with assms False aw \<open>out = Inr res\<close> msgs loop
        have "\<exists>p. s' = logLine ''fetchAndMergeMessages'' Info p ''Merged messages'' s2"
          by (auto simp: fetchAndMergeMessages_def)
        with st2 show ?thesis using genuine_trans genuine_log by blast
      qed
    qed
  qed
qed

lemma unknownUser_resolved:
  "unknownUser (Inr res) \<longleftrightarrow> isl res \<and> statusCode (projl res) = 412"
  by (cases res) (simp_all add: unknownUser_def)

lemma forMsgs_inOrder:
  "forMsgs se rpcClient msgs acc s =
     (case strictlyInOrder (mergeOne se rpcClient) msgs s of
        (Inl e, s') \<Rightarrow> (Inl e, s')
      | (Inr results, s') \<Rightarrow> (Inr (acc @ results), s'))"
proof (induction msgs arbitrary: acc s)
  case Nil
  show ?case by simp
next
  case (Cons msg msgs)
  show ?case
    by (simp add: mergeOne_def unknownUser_resolved Cons.IH split: prod.splits sum.splits)
qed

lemma fetchAndMergeMessages_inOrder:
  assumes "hashes \<noteq> []"
  shows "fetchAndMergeMessages se rpcClient hashes s =
     (case await ''fetchAndMergeMessages''
             (getMessagesByHashes rpcClient (map ((@) ''0x'') hashes))
             (GetMessagesByHashes (map ((@) ''0x'') hashes)) s of
        (Inl e, s1) \<Rightarrow> (Inl e, s1)
      | (Inr (Inl err), s1) \<Rightarrow>
          (Inr False,
           logLine ''fetchAndMergeMessages'' Warn (Failure err) ''Error fetching messages for sync'' s1)
      | (Inr (Inr msgs), s1) \<Rightarrow>
          (case strictlyInOrder (mergeOne se rpcClient) msgs s1 of
             (Inl e, s2) \<Rightarrow> (Inl e, s2)
           | (Inr results, s2) \<Rightarrow>
               (Inr True,
                logLine ''fetchAndMergeMessages'' Info
                  (Fields [(''messages'', Num (int (length results))),
                           (''success'', Num (int (length (filter (\<lambda>r. \<not> isl r) results))))])
                  ''Merged messages'' s2)))"
  using assms
  by (simp add: fetchAndMergeMessages_def forMsgs_inOrder split: prod.splits sum.splits)

text \<open>
  Claim C4. On a list of hashes that is not empty, fetchAndMergeMessages first asks the
  peer for the messages, once, with \<open>0x\<close> before each hash. When the request resolves to
  messages, it merges them one after the other in the order of the list, each with the
  source \<open>SyncEngine\<close>: the merges it asked for are the messages up to the point it got
  to, and all of them when it returns, which it does when no call is rejected.
  syncUserAndRetryMessage is entered exactly for the messages whose merge resolved to an
  error with status code 412, in that order. Every call in the history of the run was made
  on the peer or the storage, each on the world the one before left, and settled to what
  is recorded; the world the method leaves is the one the last call left. The method as a
  whole is the request followed by \<open>mergeOne\<close> on each message, strictly in order.
\<close>

theorem fetchAndMergeMessages_sequence:
  assumes "hashes \<noteq> []" and "fetchAndMergeMessages se rpcClient hashes s = (r, s')"
  shows "(\<exists>res tr.
     res = fst (getMessagesByHashes rpcClient (map ((@) ''0x'') hashes) (world s)) \<and>
     history s' = history s @
        \<lparr>caller = ''fetchAndMergeMessages'', syncing = isSyncing s,
          ev = GetMessagesByHashes (map ((@) ''0x'') hashes) res\<rparr> # tr \<and>
     hashRequests (map ev tr) = [] \<and>
     (\<forall>msgs. res = Inr (Inr msgs) \<longrightarrow>
        map fst (merges tr) = take (length (merges tr)) msgs \<and>
        (\<not> isl r \<longrightarrow> map fst (merges tr) = msgs)) \<and>
     ((\<forall>msgs. res \<noteq> Inr (Inr msgs)) \<longrightarrow> merges tr = []) \<and>
     list_all (\<lambda>x. fst (snd x) = ''SyncEngine'') (merges tr) \<and>
     entered (map ev tr) = map fst (filter (\<lambda>x. unknownUser (snd (snd x))) (merges tr)) \<and>
     (resolves se rpcClient \<longrightarrow> \<not> isl r) \<and>
     replay se rpcClient
       (GetMessagesByHashes (map ((@) ''0x'') hashes) res # map ev tr) (world s) = Some (world s')) \<and>
     (r, s') =
       (case await ''fetchAndMergeMessages''
               (getMessagesByHashes rpcClient (map ((@) ''0x'') hashes))
               (GetMessagesByHashes (map ((@) ''0x'') hashes)) s of
          (Inl e, s1) \<Rightarrow> (Inl e, s1)
        | (Inr (Inl err), s1) \<Rightarrow>
            (Inr False,
             logLine ''fetchAndMergeMessages'' Warn (Failure err) ''Error fetching messages for sync'' s1)
        | (Inr (Inr msgs), s1) \<Rightarrow>
            (case strictlyInOrder (mergeOne se rpcClient) msgs s1 of
               (Inl e, s2) \<Rightarrow> (Inl e, s2)
             | (Inr results, s2) \<Rightarrow>
                 (Inr True,
                  logLine ''fetchAndMergeMessages'' Info
                    (Fields [(''messages'', Num (int (length results))),
                             (''success'', Num (int (length (filter (\<lambda>r. \<not> isl r) results))))])
                    ''Merged messages'' s2)))"
proof -
  from sequence_observed [OF assms] obtain res tr where
    o: "res = fst (getMessagesByHashes rpcClient (map ((@) ''0x'') hashes) (world s)) \<and>
     history s' = history s @
        \<lparr>caller = ''fetchAndMergeMessages'', syncing = isSyncing s,
          ev = GetMessagesByHashes (map ((@) ''0x'') hashes) res\<rparr> # tr \<and>
     hashRequests (map ev tr) = [] \<and>
     (\<forall>msgs. res = Inr (Inr msgs) \<longrightarrow>
        map fst (merges tr) = take (length (merges tr)) msgs \<and>
        (\<not> isl r \<longrightarrow> map fst (merges tr) = msgs)) \<and>
     ((\<forall>msgs. res \<noteq> Inr (Inr msgs)) \<longrightarrow> merges tr = []) \<and>
     list_all (\<lambda>x. fst (snd x) = ''SyncEngine'') (merges tr) \<and>
     entered (map ev tr) = map fst (filter (\<lambda>x. unknownUser (snd (snd x))) (merges tr)) \<and>
     (resolves se rpcClient \<longrightarrow> \<not> isl r)"
    by (elim exE) (erule that)
  from o have h: "history s' = history s @
        \<lparr>caller = ''fetchAndMergeMessages'', syncing = isSyncing s,
          ev = GetMessagesByHashes (map ((@) ''0x'') hashes) res\<rparr> # tr"
    by (elim conjE)
  from genuine_fetchAndMergeMessages [OF assms(2)] h
  have g: "replay se rpcClient
       (GetMessagesByHashes (map ((@) ''0x'') hashes) res # map ev tr) (world s) = Some (world s')"
    by (auto simp: genuine_def)
  have e: "(r, s') =
       (case await ''fetchAndMergeMessages''
               (getMessagesByHashes rpcClient (map ((@) ''0x'') hashes))
               (GetMessagesByHashes (map ((@) ''0x'') hashes)) s of
          (Inl e, s1) \<Rightarrow> (Inl e, s1)
        | (Inr (Inl err), s1) \<Rightarrow>
            (Inr False,
             logLine ''fetchAndMergeMessages'' Warn (Failure err) ''Error fetching messages for sync'' s1)
        | (Inr (Inr msgs), s1) \<Rightarrow>
            (case strictlyInOrder (mergeOne se rpcClient) msgs s1 of
               (Inl e, s2) \<Rightarrow> (Inl e, s2)
             | (Inr results, s2) \<Rightarrow>
                 (Inr True,
                  logLine ''fetchAndMergeMessages'' Info
                    (Fields [(''messages'', Num (int (length results))),
                             (''success'', Num (int (length (filter (\<lambda>r. \<not> isl r) results))))])
                    ''Merged messages'' s2)))"
    using fetchAndMergeMessages_inOrder [OF assms(1), of se rpcClient s] assms(2) by simp
  from o g have "\<exists>res tr.
     res = fst (getMessagesByHashes rpcClient (map ((@) ''0x'') hashes) (world s)) \<and>
     history s' = history s @
        \<lparr>caller = ''fetchAndMergeMessages'', syncing = isSyncing s,
          ev = GetMessagesByHashes (map ((@) ''0x'') hashes) res\<rparr> # tr \<and>
     hashRequests (map ev tr) = [] \<and>
     (\<forall>msgs. res = Inr (Inr msgs) \<longrightarrow>
        map fst (merges tr) = take (length (merges tr)) msgs \<and>
        (\<not> isl r \<longrightarrow> map fst (merges tr) = msgs)) \<and>
     ((\<forall>msgs. res \<noteq> Inr (Inr msgs)) \<longrightarrow> merges tr = []) \<and>
     list_all (\<lambda>x. fst (snd x) = ''SyncEngine'') (merges tr) \<and>
     entered (map ev tr) = map fst (filter (\<lambda>x. unknownUser (snd (snd x))) (merges tr)) \<and>
     (resolves se rpcClient \<longrightarrow> \<not> isl r) \<and>
     replay se rpcClient
       (GetMessagesByHashes (map ((@) ''0x'') hashes) res # map ev tr) (world s) = Some (world s')"
    by (elim conjE) (rule exI [of _ res], rule exI [of _ tr], (intro conjI; assumption))
  with e show ?thesis by (intro conjI)
qed

theorem fetchAndMergeMessages_sequence_witness:
  "[''aa'', ''bb''] \<noteq> [] \<and> resolves hub peer \<and>
   fst (getMessagesByHashes peer (map ((@) ''0x'') [''aa'', ''bb'']) (world idle)) =
     Inr (Inr [msg 7 ''aa'', msg 7 ''bb'']) \<and>
   \<not> isl (fst (fetchAndMergeMessages hub peer [''aa'', ''bb''] idle)) \<and>
   map fst (merges (history (snd (fetchAndMergeMessages hub peer [''aa'', ''bb''] idle)))) =
     [msg 7 ''aa'', msg 7 ''bb''] \<and>
   entered (map ev (history (snd (fetchAndMergeMessages hub peer [''aa'', ''bb''] idle)))) =
     map fst (filter (\<lambda>x. unknownUser (snd (snd x)))
       (merges (history (snd (fetchAndMergeMessages hub peer [''aa'', ''bb''] idle))))) \<and>
   replay hub peer (map ev (history (snd (fetchAndMergeMessages hub peer [''aa'', ''bb''] idle))))
     (world idle) = Some (world (snd (fetchAndMergeMessages hub peer [''aa'', ''bb''] idle))) \<and>
   known (world (snd (fetchAndMergeMessages hub peer [''aa'', ''bb''] idle))) = [7] \<and>
   entered (map ev (history (snd (fetchAndMergeMessages hub peer [''aa'', ''bb''] idle)))) =
     [msg 7 ''aa'']"
proof -
  have ne: "[''aa'', ''bb''] \<noteq> ([] :: string list)" by simp
  obtain r s' where run: "fetchAndMergeMessages hub peer [''aa'', ''bb''] idle = (r, s')"
    by (cases "fetchAndMergeMessages hub peer [''aa'', ''bb''] idle") auto
  have res: "fst (getMessagesByHashes peer (map ((@) ''0x'') [''aa'', ''bb'']) (world idle)) =
     Inr (Inr [msg 7 ''aa'', msg 7 ''bb''])"
    by (simp add: peer_def)
  have k: "known (world s') = [7]" using run by (auto simp: net_defs run_defs)
  have en: "entered (map ev (history s')) = [msg 7 ''aa'']"
    using run by (auto simp: net_defs run_defs)
  from fetchAndMergeMessages_sequence [OF ne run, THEN conjunct1]
  have "\<exists>res tr.
     res = fst (getMessagesByHashes peer (map ((@) ''0x'') [''aa'', ''bb'']) (world idle)) \<and>
     history s' = history idle @
        \<lparr>caller = ''fetchAndMergeMessages'', syncing = isSyncing idle,
          ev = GetMessagesByHashes (map ((@) ''0x'') [''aa'', ''bb'']) res\<rparr> # tr \<and>
     (\<forall>msgs. res = Inr (Inr msgs) \<longrightarrow>
        map fst (merges tr) = take (length (merges tr)) msgs \<and>
        (\<not> isl r \<longrightarrow> map fst (merges tr) = msgs)) \<and>
     entered (map ev tr) = map fst (filter (\<lambda>x. unknownUser (snd (snd x))) (merges tr)) \<and>
     (resolves hub peer \<longrightarrow> \<not> isl r) \<and>
     replay hub peer
       (GetMessagesByHashes (map ((@) ''0x'') [''aa'', ''bb'']) res # map ev tr) (world idle) = Some (world s')"
    by (elim exE conjE) (rule exI, rule exI, (intro conjI; assumption))
  then obtain res0 tr where
    r0: "res0 = fst (getMessagesByHashes peer (map ((@) ''0x'') [''aa'', ''bb'']) (world idle))"
    and h: "history s' = history idle @
        \<lparr>caller = ''fetchAndMergeMessages'', syncing = isSyncing idle,
          ev = GetMessagesByHashes (map ((@) ''0x'') [''aa'', ''bb'']) res0\<rparr> # tr"
    and ms: "\<forall>msgs. res0 = Inr (Inr msgs) \<longrightarrow>
        map fst (merges tr) = take (length (merges tr)) msgs \<and>
        (\<not> isl r \<longrightarrow> map fst (merges tr) = msgs)"
    and e: "entered (map ev tr) = map fst (filter (\<lambda>x. unknownUser (snd (snd x))) (merges tr))"
    and rs: "resolves hub peer \<longrightarrow> \<not> isl r"
    and g0: "replay hub peer
       (GetMessagesByHashes (map ((@) ''0x'') [''aa'', ''bb'']) res0 # map ev tr) (world idle) = Some (world s')"
    by blast
  from rs resolves_hub have nr: "\<not> isl r" by simp
  from r0 res have "res0 = Inr (Inr [msg 7 ''aa'', msg 7 ''bb''])" by simp
  with ms nr have m: "map fst (merges tr) = [msg 7 ''aa'', msg 7 ''bb'']" by blast
  from h have eq: "merges (history s') = merges tr" "entered (map ev (history s')) = entered (map ev tr)"
    "map ev (history s') = GetMessagesByHashes (map ((@) ''0x'') [''aa'', ''bb'']) res0 # map ev tr"
    by (simp_all add: idle_def)
  from g0 eq have g: "replay hub peer (map ev (history s')) (world idle) = Some (world s')"
    by simp
  from nr m e eq g k en run res resolves_hub show ?thesis by simp
qed

text \<open>
  Claim C9. The boolean fetchAndMergeMessages returns says that the list of hashes was not
  empty and that the request for the messages resolved to messages, and nothing else:
  whatever the merges and the recoveries resolve to, a batch that is not empty and whose
  request succeeds gives true. The method returns a boolean whenever no call is rejected.
\<close>

theorem fetchAndMergeMessages_boolean:
  assumes "fetchAndMergeMessages se rpcClient hashes s = (r, s')"
  shows "(\<forall>b. r = Inr b \<longrightarrow>
            (b \<longleftrightarrow> hashes \<noteq> [] \<and>
               (\<exists>msgs. fst (getMessagesByHashes rpcClient (map ((@) ''0x'') hashes) (world s)) =
                         Inr (Inr msgs)))) \<and>
         (resolves se rpcClient \<longrightarrow> (\<exists>b. r = Inr b))"
proof (cases "hashes = []")
  case True
  with assms show ?thesis by (auto simp: fetchAndMergeMessages_def)
next
  case False
  have 1: "\<forall>b. r = Inr b \<longrightarrow>
            (b \<longleftrightarrow> (\<exists>msgs. fst (getMessagesByHashes rpcClient (map ((@) ''0x'') hashes) (world s)) =
                         Inr (Inr msgs)))"
    using assms False
    by (auto simp: fetchAndMergeMessages_def await_unfold split: sum.splits prod.splits)
  have 2: "resolves se rpcClient \<Longrightarrow> \<exists>b. r = Inr b"
    using assms False forMsgs_resolves [of se rpcClient]
    by (auto simp: fetchAndMergeMessages_def await_unfold resolvesD split: sum.splits prod.splits)
  from 1 2 False show ?thesis by blast
qed

theorem fetchAndMergeMessages_boolean_witness:
  "resolves hub_broken peer \<and>
   (\<forall>m src w. isl (projr (fst (mergeMessage (engine hub_broken) m src w)))) \<and>
   fst (getMessagesByHashes peer (map ((@) ''0x'') [''aa'', ''bb'']) (world idle)) =
     Inr (Inr [msg 7 ''aa'', msg 7 ''bb'']) \<and>
   fst (fetchAndMergeMessages hub_broken peer [''aa'', ''bb''] idle) = Inr True \<and>
   fst (fetchAndMergeMessages hub_broken peer [] idle) = Inr False"
proof -
  obtain r s' where run: "fetchAndMergeMessages hub_broken peer [''aa'', ''bb''] idle = (r, s')"
    by (cases "fetchAndMergeMessages hub_broken peer [''aa'', ''bb''] idle") auto
  obtain r0 s0 where run0: "fetchAndMergeMessages hub_broken peer [] idle = (r0, s0)"
    by (cases "fetchAndMergeMessages hub_broken peer [] idle") auto
  have res: "fst (getMessagesByHashes peer (map ((@) ''0x'') [''aa'', ''bb'']) (world idle)) =
     Inr (Inr [msg 7 ''aa'', msg 7 ''bb''])"
    by (simp add: peer_def)
  have fail: "\<forall>m src w. isl (projr (fst (mergeMessage (engine hub_broken) m src w)))"
    by (simp add: net_defs)
  from fetchAndMergeMessages_boolean [OF run] resolves_hub_broken res
  have a: "r = Inr True" by auto
  from fetchAndMergeMessages_boolean [OF run0] resolves_hub_broken
  have b: "r0 = Inr False" by auto
  from run run0 a b res fail resolves_hub_broken show ?thesis by simp
qed

section \<open>Properties of performSync\<close>






text \<open>
  performSync returns, and returns normally, when the peer's trie has an end and the fuel
  is above the rank of the divergence prefix.
\<close>

lemma performSync_returns:
  assumes "descends rank rpcClient"
    and "rank (getDivergencePrefix (trie se) (world s) (snapshot_prefix (snapshot se (world s))) theirs) < fuel"
  shows "\<exists>s'. performSync fuel se rpcClient theirs s = Some (Inr (), s')"
proof -
  from walk_returns [OF assms(1) assms(2)]
  have "performSync_try fuel se rpcClient theirs s \<noteq> None"
    by (auto simp: performSync_try_def Let_def split: option.splits prod.splits sum.splits)
  then show ?thesis
    by (auto simp: performSync_def Let_def split: prod.splits)
qed

text \<open>With more fuel performSync returns what it returned with less.\<close>

lemma performSync_fuel_mono:
  assumes "performSync n se rpcClient theirs s = Some x"
  shows "performSync (Suc n) se rpcClient theirs s = Some x"
proof -
  define s0 where "s0 = s\<lparr>isSyncing := True\<rparr>"
  define dp where "dp = getDivergencePrefix (trie se) (world s0)
                          (snapshot_prefix (snapshot se (world s0))) theirs"
  define sa where "sa = logLine ''performSync'' Info
                 (Fields [(''divergencePrefix'', Str dp),
                          (''prefix'', Str (snapshot_prefix (snapshot se (world s0))))])
                 ''Divergence prefix'' s0"
  from assms obtain y where walk: "fetchMissingHashesByPrefix n se rpcClient dp sa = Some y"
    unfolding performSync_def performSync_try_def Let_def sa_def dp_def s0_def
    by (auto split: option.splits)
  from fuel_mono(1) [OF walk] walk
  have "performSync_try (Suc n) se rpcClient theirs s = performSync_try n se rpcClient theirs s"
    unfolding performSync_try_def Let_def sa_def dp_def s0_def
    by (simp del: fetchMissingHashesByPrefix.simps)
  with assms show ?thesis by (simp add: performSync_def)
qed

section \<open>Properties of encodeMessage and decodeMessage\<close>

lemma badInput_parse_failure:
  "badInput (HubError ''bad_request.parse_failure'' c)"
  by (simp add: badInput_def)

text \<open>
  Claim C8. For every input that is not a valid gossip envelope, encodeMessage and
  decodeMessage return an error of the kind bad_input and neither throw nor produce
  output. For a value the type guard rejects, encodeMessage returns
  \<open>err(HubError('bad_request.parse_failure', 'invalid gossip message'))\<close>, stringifying
  nothing. decodeMessage returns the same error for bytes whose text parses to a value that
  is not truthy or that the guard rejects, in particular for the bytes of the JSON text of
  a value the guard rejects; for bytes whose text does not parse it returns the error of
  safeJsonParse as it is, which is of that kind when the errors of safeJsonParse are. What
  decodeMessage returns as \<open>ok\<close> is always a truthy value that the guard accepts.
\<close>

theorem invalid_envelope_rejected:
  "(\<not> isGossipMessage im message \<longrightarrow>
      encodeMessage im message =
        Inl (HubError ''bad_request.parse_failure'' (Text ''invalid gossip message'')) \<and>
      (\<exists>e. encodeMessage im message = Inl e \<and> badInput e)) \<and>
   (\<forall>e. safeJsonParse im (decode im bytes) = Inl e \<longrightarrow> decodeMessage im bytes = Inl e) \<and>
   (\<forall>v. safeJsonParse im (decode im bytes) = Inr v \<and> (\<not> truthy v \<or> \<not> isGossipMessage im v) \<longrightarrow>
      decodeMessage im bytes =
        Inl (HubError ''bad_request.parse_failure'' (Text ''invalid gossip message'')) \<and>
      (\<exists>e. decodeMessage im bytes = Inl e \<and> badInput e)) \<and>
   (\<not> isGossipMessage im message \<and> safeJsonStringify im message = Inr json \<and>
    decode im (encode im json) = json \<and> safeJsonParse im json = Inr message \<longrightarrow>
      decodeMessage im (encode im json) =
        Inl (HubError ''bad_request.parse_failure'' (Text ''invalid gossip message''))) \<and>
   ((\<forall>t e. safeJsonParse im t = Inl e \<longrightarrow> badInput e) \<and>
    (\<forall>v. safeJsonParse im (decode im bytes) = Inr v \<longrightarrow> \<not> truthy v \<or> \<not> isGossipMessage im v) \<longrightarrow>
      (\<exists>e. decodeMessage im bytes = Inl e \<and> badInput e)) \<and>
   (\<forall>v. decodeMessage im bytes = Inr v \<longrightarrow>
      truthy v \<and> isGossipMessage im v \<and> safeJsonParse im (decode im bytes) = Inr v)"
proof (intro conjI allI impI)
  assume "\<not> isGossipMessage im message"
  then show "encodeMessage im message =
        Inl (HubError ''bad_request.parse_failure'' (Text ''invalid gossip message''))"
    and "\<exists>e. encodeMessage im message = Inl e \<and> badInput e"
    by (simp_all add: encodeMessage_def badInput_parse_failure)
next
  fix e
  assume "safeJsonParse im (decode im bytes) = Inl e"
  then show "decodeMessage im bytes = Inl e"
    by (simp add: decodeMessage_def Let_def)
next
  fix v
  assume "safeJsonParse im (decode im bytes) = Inr v \<and> (\<not> truthy v \<or> \<not> isGossipMessage im v)"
  then show "decodeMessage im bytes =
        Inl (HubError ''bad_request.parse_failure'' (Text ''invalid gossip message''))"
    and "\<exists>e. decodeMessage im bytes = Inl e \<and> badInput e"
    by (auto simp: decodeMessage_def Let_def badInput_parse_failure)
next
  assume "\<not> isGossipMessage im message \<and> safeJsonStringify im message = Inr json \<and>
    decode im (encode im json) = json \<and> safeJsonParse im json = Inr message"
  then show "decodeMessage im (encode im json) =
        Inl (HubError ''bad_request.parse_failure'' (Text ''invalid gossip message''))"
    by (simp add: decodeMessage_def Let_def)
next
  assume a: "(\<forall>t e. safeJsonParse im t = Inl e \<longrightarrow> badInput e) \<and>
    (\<forall>v. safeJsonParse im (decode im bytes) = Inr v \<longrightarrow> \<not> truthy v \<or> \<not> isGossipMessage im v)"
  show "\<exists>e. decodeMessage im bytes = Inl e \<and> badInput e"
  proof (cases "safeJsonParse im (decode im bytes)")
    case (Inl e)
    with a show ?thesis by (simp add: decodeMessage_def Let_def)
  next
    case (Inr v)
    with a have "\<not> truthy v \<or> \<not> isGossipMessage im v" by simp
    with Inr show ?thesis
      by (auto simp: decodeMessage_def Let_def badInput_parse_failure)
  qed
next
  fix v
  assume "decodeMessage im bytes = Inr v"
  then show "truthy v" and "isGossipMessage im v" and "safeJsonParse im (decode im bytes) = Inr v"
    by (auto simp: decodeMessage_def Let_def split: sum.splits if_splits)
qed

theorem invalid_envelope_rejected_witness:
  "\<not> isGossipMessage wire JNull \<and>
   encodeMessage wire JNull =
     Inl (HubError ''bad_request.parse_failure'' (Text ''invalid gossip message'')) \<and>
   badInput (HubError ''bad_request.parse_failure'' (Text ''invalid gossip message'')) \<and>
   safeJsonStringify wire JNull = Inr ''null'' \<and>
   decode wire (encode wire ''null'') = ''null'' \<and>
   safeJsonParse wire ''null'' = Inr JNull \<and>
   decodeMessage wire (encode wire ''null'') =
     Inl (HubError ''bad_request.parse_failure'' (Text ''invalid gossip message'')) \<and>
   safeJsonParse wire (decode wire (encode wire ''{'')) =
     Inl (HubError ''bad_request.parse_failure'' (Text ''json parse failure'')) \<and>
   decodeMessage wire (encode wire ''{'') =
     Inl (HubError ''bad_request.parse_failure'' (Text ''json parse failure'')) \<and>
   (\<forall>t. case safeJsonParse wire t of Inl e \<Rightarrow> badInput e | Inr v \<Rightarrow> True) \<and>
   badInput (projl (decodeMessage wire (encode wire ''{'')))"
proof -
  have 1: "\<not> isGossipMessage wire JNull" by (simp add: wire_def)
  have 2: "safeJsonStringify wire JNull = Inr ''null''" by (simp add: wire_def hello_def)
  have 3: "decode wire (encode wire ''null'') = ''null''" by code_simp
  have 4: "safeJsonParse wire ''null'' = Inr JNull" by (simp add: wire_def hello_json_def)
  have 5: "safeJsonParse wire (decode wire (encode wire ''{'')) =
             Inl (HubError ''bad_request.parse_failure'' (Text ''json parse failure''))"
    by code_simp
  have 6: "\<forall>t e. safeJsonParse wire t = Inl e \<longrightarrow> badInput e"
    by (auto simp: wire_def badInput_def split: if_splits)
  note t1 = invalid_envelope_rejected [of wire JNull "encode wire ''null''" "''null''"]
  note t2 = invalid_envelope_rejected [of wire JNull "encode wire ''{''" "''null''"]
  from t1 1 have a: "encodeMessage wire JNull =
     Inl (HubError ''bad_request.parse_failure'' (Text ''invalid gossip message''))"
    by blast
  from t1 1 2 3 4 have b: "decodeMessage wire (encode wire ''null'') =
     Inl (HubError ''bad_request.parse_failure'' (Text ''invalid gossip message''))"
    by blast
  from t2 5 have c: "decodeMessage wire (encode wire ''{'') =
     Inl (HubError ''bad_request.parse_failure'' (Text ''json parse failure''))"
    by blast
  from t2 5 6 have "\<exists>e. decodeMessage wire (encode wire ''{'') = Inl e \<and> badInput e"
    by auto
  then have d: "badInput (projl (decodeMessage wire (encode wire ''{'')))" by auto
  from 6 have 7: "\<forall>t. case safeJsonParse wire t of Inl e \<Rightarrow> badInput e | Inr v \<Rightarrow> True"
    by (auto split: sum.splits)
  from 1 2 3 4 5 7 a b c d
    badInput_parse_failure [of "Text ''invalid gossip message''"]
  show ?thesis by blast
qed

text \<open>
  Claim C10. For every message the type guard accepts (an object, hence truthy) that JSON
  represents, that is, safeJsonStringify gives a text that safeJsonParse reads back as the
  message, and the text survives UTF-8 encoding and decoding, encodeMessage returns bytes
  on which decodeMessage returns \<open>ok\<close> of the message.
\<close>

theorem encode_decode_roundtrip:
  assumes "isGossipMessage im m" and "truthy m"
    and "safeJsonStringify im m = Inr json"
    and "decode im (encode im json) = json"
    and "safeJsonParse im json = Inr m"
  shows "encodeMessage im m = Inr (encode im json) \<and>
         decodeMessage im (encode im json) = Inr m"
  using assms by (simp add: encodeMessage_def decodeMessage_def Let_def)

theorem encode_decode_roundtrip_witness:
  "isGossipMessage wire hello \<and> truthy hello \<and>
   safeJsonStringify wire hello = Inr hello_json \<and>
   decode wire (encode wire hello_json) = hello_json \<and>
   safeJsonParse wire hello_json = Inr hello \<and>
   encodeMessage wire hello = Inr (encode wire hello_json) \<and>
   decodeMessage wire (encode wire hello_json) = Inr hello"
proof -
  have 1: "isGossipMessage wire hello" by (simp add: wire_def hello_def)
  have 2: "truthy hello" by (simp add: hello_def)
  have 3: "safeJsonStringify wire hello = Inr hello_json" by (simp add: wire_def)
  have 4: "decode wire (encode wire hello_json) = hello_json"
    by (simp add: wire_def comp_def)
  have 5: "safeJsonParse wire hello_json = Inr hello" by (simp add: wire_def)
  show ?thesis using encode_decode_roundtrip [OF 1 2 3 4 5] 1 2 3 4 5 by simp
qed

end
